theory Spec2Isabelle
  imports Complex_Main "HOL-Library.Sublist"
begin

section \<open>JavaScript strings\<close>

text \<open>
  A JavaScript string is a sequence of UTF-16 code units. A code unit is modelled by its
  number, so that the character classes of the regular expressions (\<^verbatim>\<open>\s\<close>, \<^verbatim>\<open>\S\<close>,
  \<^verbatim>\<open>\w\<close>, \<^verbatim>\<open>[^a-z\s]\<close>) can be written out for every code unit and not only for ASCII.
  \<open>jsstr\<close> reads an ASCII literal as such a string.
\<close>

type_synonym jschar = nat
type_synonym jsstring = "jschar list"

definition jsstr :: "string \<Rightarrow> jsstring" where
  "jsstr s = map of_char s"

text \<open>
  \<^verbatim>\<open>\s\<close> of a regular expression and the characters removed by \<^verbatim>\<open>String.prototype.trim\<close>:
  the WhiteSpace and LineTerminator code points of ECMAScript (TAB, LF, VT, FF, CR, SP,
  NBSP, U+1680, U+2000..U+200A, LS, PS, U+202F, U+205F, U+3000, U+FEFF).
\<close>

definition isWhiteSpace :: "jschar \<Rightarrow> bool" where
  "isWhiteSpace c \<longleftrightarrow>
     c = 0x09 \<or> c = 0x0A \<or> c = 0x0B \<or> c = 0x0C \<or> c = 0x0D \<or> c = 0x20 \<or> c = 0xA0 \<or>
     c = 0x1680 \<or> (0x2000 \<le> c \<and> c \<le> 0x200A) \<or> c = 0x2028 \<or> c = 0x2029 \<or>
     c = 0x202F \<or> c = 0x205F \<or> c = 0x3000 \<or> c = 0xFEFF"

text \<open>\<^verbatim>\<open>[a-z]\<close>\<close>

definition isLowerAZ :: "jschar \<Rightarrow> bool" where
  "isLowerAZ c \<longleftrightarrow> 0x61 \<le> c \<and> c \<le> 0x7A"

text \<open>\<^verbatim>\<open>\w\<close> is \<^verbatim>\<open>[A-Za-z0-9_]\<close>.\<close>

definition isWordChar :: "jschar \<Rightarrow> bool" where
  "isWordChar c \<longleftrightarrow>
     (0x41 \<le> c \<and> c \<le> 0x5A) \<or> (0x61 \<le> c \<and> c \<le> 0x7A) \<or> (0x30 \<le> c \<and> c \<le> 0x39) \<or> c = 0x5F"

text \<open>
  \<^verbatim>\<open>String.prototype.toLowerCase\<close>. The mapping of the runtime is the Unicode one; it is
  written out here for the code units below U+0100 (A..Z, and the Latin-1 capitals
  U+00C0..U+00DE without the multiplication sign U+00D7), where it is a shift by 0x20 of
  the single code unit. Code units from U+0100 on are left as they are.
\<close>

definition lowerUnit :: "jschar \<Rightarrow> jschar" where
  "lowerUnit c =
     (if 0x41 \<le> c \<and> c \<le> 0x5A then c + 0x20
      else if 0xC0 \<le> c \<and> c \<le> 0xDE \<and> c \<noteq> 0xD7 then c + 0x20
      else c)"

definition toLowerCase :: "jsstring \<Rightarrow> jsstring" where
  "toLowerCase s = map lowerUnit s"

text \<open>\<^verbatim>\<open>String.prototype.trim\<close>: white space is removed at both ends.\<close>

definition trim :: "jsstring \<Rightarrow> jsstring" where
  "trim s = rev (dropWhile isWhiteSpace (rev (dropWhile isWhiteSpace s)))"

text \<open>\<^verbatim>\<open>String.prototype.includes\<close>: \<open>p\<close> occurs in \<open>s\<close> as a contiguous substring.\<close>

fun includes_str :: "jsstring \<Rightarrow> jsstring \<Rightarrow> bool" where
  "includes_str [] p = (p = [])"
| "includes_str (c # cs) p = (take (length p) (c # cs) = p \<or> includes_str cs p)"

text \<open>\<^verbatim>\<open>Array.prototype.join\<close> on an array of strings.\<close>

fun join :: "jsstring \<Rightarrow> jsstring list \<Rightarrow> jsstring" where
  "join sep [] = []"
| "join sep [x] = x"
| "join sep (x # y # ys) = x @ sep @ join sep (y # ys)"

text \<open>The decimal numeral that a template literal prints for a non-negative integer.\<close>

fun showNat :: "nat \<Rightarrow> jsstring" where
  "showNat n = (if n < 10 then [0x30 + n] else showNat (n div 10) @ [0x30 + n mod 10])"

declare showNat.simps [simp del]

text \<open>
  \<^verbatim>\<open>Array.prototype.slice(start, end)\<close> with integer arguments: a negative index counts
  from the end, both indices are clamped to the array, and an empty range gives the
  empty array.
\<close>

definition slice :: "'a list \<Rightarrow> int \<Rightarrow> int \<Rightarrow> 'a list" where
  "slice xs start stop =
     (let len = int (length xs);
          k = (if start < 0 then max (len + start) 0 else min start len);
          final = (if stop < 0 then max (len + stop) 0 else min stop len)
      in take (nat (final - k)) (drop (nat k) xs))"

section \<open>Regular expressions with the global flag\<close>

text \<open>
  A pattern is modelled by its matcher at the start of a string: \<open>Some n\<close> when the
  pattern matches there and the match has \<open>n\<close> code units, \<open>None\<close> when it does not.
  All patterns of \<^verbatim>\<open>preprocessText\<close> have the shape of a literal or a class followed by a
  greedy \<^verbatim>\<open>+\<close> with nothing after it, so the greedy match is the match, and every match
  has at least one code unit.
\<close>

type_synonym matcher = "jsstring \<Rightarrow> nat option"

text \<open>The literal \<open>lit\<close> followed by \<^verbatim>\<open>cls+\<close>, as in \<^verbatim>\<open>http\S+\<close> or \<^verbatim>\<open>@\w+\<close>.\<close>

definition litPlus :: "jsstring \<Rightarrow> (jschar \<Rightarrow> bool) \<Rightarrow> matcher" where
  "litPlus lit cls s =
     (if take (length lit) s = lit
      then (let run = takeWhile cls (drop (length lit) s)
            in if run = [] then None else Some (length lit + length run))
      else None)"

text \<open>Alternation \<^verbatim>\<open>a|b\<close>: the first alternative that matches decides.\<close>

definition alt :: "matcher \<Rightarrow> matcher \<Rightarrow> matcher" where
  "alt a b s = (case a s of Some n \<Rightarrow> Some n | None \<Rightarrow> b s)"

text \<open>A single code unit of a class, as in \<^verbatim>\<open>[^a-z\s]\<close>.\<close>

definition oneOf :: "(jschar \<Rightarrow> bool) \<Rightarrow> matcher" where
  "oneOf cls s = (case s of [] \<Rightarrow> None | c # _ \<Rightarrow> if cls c then Some 1 else None)"

text \<open>
  \<^verbatim>\<open>s.replace(/pattern/g, rep)\<close>: the string is scanned from the left; where the pattern
  matches, the match is replaced and the scan goes on behind it; where it does not, the
  code unit is kept. (A match of length \<open>n\<close> at \<open>c # cs\<close> leaves \<open>drop (n - 1) cs\<close>.)
\<close>

fun replaceAll :: "matcher \<Rightarrow> jsstring \<Rightarrow> jsstring \<Rightarrow> jsstring" where
  "replaceAll m rep [] = []"
| "replaceAll m rep (c # cs) =
     (case m (c # cs) of
        None \<Rightarrow> c # replaceAll m rep cs
      | Some n \<Rightarrow> rep @ replaceAll m rep (drop (n - 1) cs))"

section \<open>The text normalizer (sentimentService.preprocessText)\<close>

definition notWhiteSpace :: "jschar \<Rightarrow> bool" where
  "notWhiteSpace c \<longleftrightarrow> \<not> isWhiteSpace c"

text \<open>\<^verbatim>\<open>/http\S+|www\S+|https\S+/g\<close>\<close>

definition urlPattern :: matcher where
  "urlPattern =
     alt (litPlus (jsstr ''http'') notWhiteSpace)
       (alt (litPlus (jsstr ''www'') notWhiteSpace)
            (litPlus (jsstr ''https'') notWhiteSpace))"

text \<open>\<^verbatim>\<open>/@\w+|#\w+/g\<close>\<close>

definition tagPattern :: matcher where
  "tagPattern = alt (litPlus (jsstr ''@'') isWordChar) (litPlus (jsstr ''#'') isWordChar)"

text \<open>\<^verbatim>\<open>/[^a-z\s]/g\<close>\<close>

definition specialPattern :: matcher where
  "specialPattern = oneOf (\<lambda>c. \<not> (isLowerAZ c \<or> isWhiteSpace c))"

text \<open>\<^verbatim>\<open>/\s+/g\<close>\<close>

definition spacesPattern :: matcher where
  "spacesPattern = litPlus [] isWhiteSpace"

text \<open>
  The chain of the four replacements and the trim, on the lower-cased text.
\<close>

definition cleanup :: "jsstring \<Rightarrow> jsstring" where
  "cleanup text =
     trim
       (replaceAll spacesPattern (jsstr '' '')
         (replaceAll specialPattern (jsstr '' '')
           (replaceAll tagPattern []
             (replaceAll urlPattern [] text))))"

text \<open>
  \<^verbatim>\<open>preprocessText(text)\<close> for a string argument. The \<^verbatim>\<open>catch\<close> branch of the source (which
  returns the empty string) is not reachable for a string: none of the string methods
  throws.
\<close>

definition preprocessText :: "jsstring \<Rightarrow> jsstring" where
  "preprocessText text = cleanup (toLowerCase text)"

text \<open>
  The lower-casing of the runtime follows the Unicode tables, which are no part of the
  repository (U+212A becomes "k", U+0130 becomes "i" and U+0307, for example). Where a
  statement is about every text, \<^verbatim>\<open>String.prototype.toLowerCase\<close> is therefore a parameter
  \<open>lc\<close>, about which nothing is assumed; \<open>toLowerCase\<close> above is what it does on the
  ASCII and Latin-1 texts of the examples.
\<close>

type_synonym lowercase = "jsstring \<Rightarrow> jsstring"

definition preprocessTextWith :: "lowercase \<Rightarrow> jsstring \<Rightarrow> jsstring" where
  "preprocessTextWith lc text = cleanup (lc text)"

text \<open>No two neighbouring code units are both the space U+0020.\<close>

fun singleSpaced :: "jsstring \<Rightarrow> bool" where
  "singleSpaced (a # b # cs) = (\<not> (a = 0x20 \<and> b = 0x20) \<and> singleSpaced (b # cs))"
| "singleSpaced _ = True"

section \<open>JavaScript numbers\<close>

text \<open>
  A number is an IEEE 754 double: a finite value (a rational; the sign of zero is not
  kept), an infinity or \<^verbatim>\<open>NaN\<close>. The result of an arithmetic operation is the exact
  result rounded to the nearest double, ties to the even significand.
\<close>

datatype number = Finite rat | PosInf | NegInf | NaN

definition pow2 :: "int \<Rightarrow> rat" where
  "pow2 k = (if 0 \<le> k then 2 ^ nat k else 1 / 2 ^ nat (- k))"

text \<open>
  The binary exponent of a positive rational \<open>x\<close>, that is \<open>\<lfloor>log\<^sub>2 x\<rfloor>\<close>, kept within the
  exponents of the doubles (\<open>-1022\<close> for the subnormal range, \<open>1023\<close> at most): searched
  upwards from 0 for \<open>x \<ge> 1\<close> and downwards from \<open>-1\<close> for \<open>x < 1\<close>.
\<close>

function upExp :: "rat \<Rightarrow> int \<Rightarrow> int" where
  "upExp x e = (if e < 1023 \<and> pow2 (e + 1) \<le> x then upExp x (e + 1) else e)"
  by pat_completeness auto
termination
  by (relation "measure (\<lambda>(x, e). nat (1023 - e))") auto

function downExp :: "rat \<Rightarrow> int \<Rightarrow> int" where
  "downExp x e = (if - 1022 < e \<and> x < pow2 e then downExp x (e - 1) else e)"
  by pat_completeness auto
termination
  by (relation "measure (\<lambda>(x, e). nat (e + 1022))") auto

declare upExp.simps [simp del]
declare downExp.simps [simp del]

definition exponentOf :: "rat \<Rightarrow> int" where
  "exponentOf x = (if 1 \<le> x then upExp x 0 else downExp x (- 1))"

text \<open>The nearest integer, a tie going to the even one.\<close>

definition roundHalfEven :: "rat \<Rightarrow> int" where
  "roundHalfEven x =
     (let f = \<lfloor>x\<rfloor>; d = x - of_int f
      in if d < 1 / 2 then f else if 1 / 2 < d then f + 1 else if even f then f else f + 1)"

text \<open>
  The double nearest to a rational: the significand has 53 bits, so the value is a
  multiple of \<open>pow2 (e - 52)\<close> for its exponent \<open>e\<close>; a value that rounds to
  \<open>pow2 1024\<close> or more is an infinity.
\<close>

definition roundToDouble :: "rat \<Rightarrow> number" where
  "roundToDouble x =
     (if x = 0 then Finite 0
      else
        (let a = \<bar>x\<bar>;
             e = exponentOf a;
             ulp = pow2 (e - 52);
             n = roundHalfEven (a / ulp)
         in if 2 ^ 53 \<le> n \<and> e = 1023 then (if 0 < x then PosInf else NegInf)
            else Finite (sgn x * of_int n * ulp)))"

text \<open>
  \<^verbatim>\<open>x * c\<close> and \<^verbatim>\<open>x / c\<close> for a positive finite constant \<open>c\<close>, \<^verbatim>\<open>x < c\<close> for a finite
  constant \<open>c\<close> (false for \<^verbatim>\<open>NaN\<close>), and \<^verbatim>\<open>Math.round\<close>, which is \<open>\<lfloor>x + 1/2\<rfloor>\<close> on a
  finite value and exact.
\<close>

definition numTimes :: "number \<Rightarrow> rat \<Rightarrow> number" where
  "numTimes x c = (case x of Finite q \<Rightarrow> roundToDouble (q * c) | other \<Rightarrow> other)"

definition numOver :: "number \<Rightarrow> rat \<Rightarrow> number" where
  "numOver x c = (case x of Finite q \<Rightarrow> roundToDouble (q / c) | other \<Rightarrow> other)"

definition numLess :: "number \<Rightarrow> rat \<Rightarrow> bool" where
  "numLess x c = (case x of Finite q \<Rightarrow> q < c | NegInf \<Rightarrow> True | other \<Rightarrow> False)"

definition mathRound :: "number \<Rightarrow> number" where
  "mathRound x = (case x of Finite q \<Rightarrow> Finite (of_int \<lfloor>q + 1 / 2\<rfloor>) | other \<Rightarrow> other)"

section \<open>The sentiment service (sentimentService.js)\<close>

text \<open>A thrown value is an \<^verbatim>\<open>Error\<close> object; only its \<^verbatim>\<open>message\<close> is ever read.\<close>

datatype jserror = Error (message: jsstring)

text \<open>
  One element of the array a classification call resolves to. Both fields may be absent
  (\<^verbatim>\<open>undefined\<close>), which is what the optional chaining of the source guards against; an
  absent or empty array is the empty list.
\<close>

record classification =
  label :: "jsstring option"
  score :: "number option"

text \<open>
  The loaded classifier is external: \<open>pipe k text\<close> is the outcome of its call number
  \<open>k\<close> (from 0) in this request, made with \<open>text\<close>: it throws or resolves to an array of
  classifications. Any sequence of outcomes is such a function. The loader
  \<^verbatim>\<open>pipeline(task, model)\<close> of the library throws or resolves to a classifier.
\<close>

type_synonym pipe = "nat \<Rightarrow> jsstring \<Rightarrow> jserror + classification list"
type_synonym loader = "jsstring \<Rightarrow> jserror + pipe"

datatype sentiment = Negative | Neutral | Positive

record analyzedReview =
  originalReview :: jsstring
  cleanedText :: jsstring
  sentiment :: sentiment
  confidence :: number

text \<open>
  \<^verbatim>\<open>initPipeline()\<close> with the module variable \<^verbatim>\<open>sentimentPipeline\<close> passed in and out:
  a classifier loaded before is reused; otherwise the three-class model is loaded, and
  when that throws, the two-class one; when that throws too, the error propagates and
  the variable stays empty.
\<close>

definition initPipeline :: "loader \<Rightarrow> pipe option \<Rightarrow> (jserror + pipe) \<times> pipe option" where
  "initPipeline pipeline sentimentPipeline =
     (case sentimentPipeline of
        Some p \<Rightarrow> (Inr p, Some p)
      | None \<Rightarrow>
          (case pipeline (jsstr ''Xenova/cardiffnlp-twitter-roberta-base-sentiment-latest'') of
             Inr p \<Rightarrow> (Inr p, Some p)
           | Inl e \<Rightarrow>
               (case pipeline (jsstr ''Xenova/distilbert-base-uncased-finetuned-sst-2-english'') of
                  Inr p \<Rightarrow> (Inr p, Some p)
                | Inl e2 \<Rightarrow> (Inl e2, None))))"

text \<open>
  The threshold \<^verbatim>\<open>0.80\<close>. The source compares the score with the double nearest to 0.8,
  which lies above 0.8 with no double between the two; so for every double the comparison
  is the one with the exact 0.8.
\<close>

definition NEUTRAL_SCORE_THRESHOLD :: rat where
  "NEUTRAL_SCORE_THRESHOLD = 80 / 100"

text \<open>\<^verbatim>\<open>result?.[0]?.label?.toLowerCase() || 'neutral'\<close>\<close>

definition labelOf :: "lowercase \<Rightarrow> classification list \<Rightarrow> jsstring" where
  "labelOf lc result =
     (case result of
        [] \<Rightarrow> jsstr ''neutral''
      | r # _ \<Rightarrow>
          (case label r of
             None \<Rightarrow> jsstr ''neutral''
           | Some l \<Rightarrow> if lc l = [] then jsstr ''neutral'' else lc l))"

text \<open>\<^verbatim>\<open>result?.[0]?.score ?? 0\<close>\<close>

definition scoreOf :: "classification list \<Rightarrow> number" where
  "scoreOf result =
     (case result of
        [] \<Rightarrow> Finite 0
      | r # _ \<Rightarrow> (case score r of None \<Rightarrow> Finite 0 | Some s \<Rightarrow> s))"

text \<open>The \<^verbatim>\<open>if\<close>/\<^verbatim>\<open>else if\<close> chain that maps the label to one of the three categories.\<close>

definition mapLabel :: "jsstring \<Rightarrow> sentiment" where
  "mapLabel l =
     (if includes_str l (jsstr ''neg'') then Negative
      else if includes_str l (jsstr ''neu'') then Neutral
      else if includes_str l (jsstr ''pos'') then Positive
      else Neutral)"

text \<open>\<^verbatim>\<open>Math.round(score * 1000) / 1000\<close>\<close>

definition round3 :: "number \<Rightarrow> number" where
  "round3 s = numOver (mathRound (numTimes s 1000)) 1000"

text \<open>
  The record that the body of the \<^verbatim>\<open>for\<close> loop builds from a review, its cleaned text and
  the classifier's answer (the statements after the call, up to the \<^verbatim>\<open>push\<close>).
\<close>

definition toRecord ::
  "lowercase \<Rightarrow> jsstring \<Rightarrow> jsstring \<Rightarrow> classification list \<Rightarrow> analyzedReview" where
  "toRecord lc review cleaned result =
     (let l = labelOf lc result;
          sc = scoreOf result;
          normalized = mapLabel l;
          normalized' =
            (if normalized \<noteq> Neutral \<and> numLess sc NEUTRAL_SCORE_THRESHOLD then Neutral
             else normalized)
      in \<lparr>originalReview = review, cleanedText = cleaned,
           sentiment = normalized', confidence = round3 sc\<rparr>)"

text \<open>
  The \<^verbatim>\<open>for\<close> loop of \<^verbatim>\<open>analyzeReviews\<close>, with the number \<open>k\<close> of classifier calls made so
  far and \<^verbatim>\<open>results\<close> passed through. A review whose cleaned text is empty is skipped
  without a call; a review whose call throws is skipped by the \<^verbatim>\<open>catch\<close>.
\<close>

fun analyzeLoop ::
  "lowercase \<Rightarrow> pipe \<Rightarrow> nat \<Rightarrow> jsstring list \<Rightarrow> analyzedReview list \<Rightarrow> analyzedReview list" where
  "analyzeLoop lc pipe k [] results = results"
| "analyzeLoop lc pipe k (review # rest) results =
     (let cleaned = preprocessTextWith lc review in
      if cleaned = [] then analyzeLoop lc pipe k rest results
      else
        (let truncated = slice cleaned 0 512 in
         case pipe k truncated of
           Inl error \<Rightarrow> analyzeLoop lc pipe (k + 1) rest results
         | Inr result \<Rightarrow>
             analyzeLoop lc pipe (k + 1) rest (results @ [toRecord lc review cleaned result])))"

text \<open>
  \<^verbatim>\<open>analyzeReviews(reviews)\<close>: the only failure of the whole call is that no classifier
  can be loaded.
\<close>

definition analyzeReviews ::
  "lowercase \<Rightarrow> loader \<Rightarrow> pipe option \<Rightarrow> jsstring list
     \<Rightarrow> (jserror + analyzedReview list) \<times> pipe option" where
  "analyzeReviews lc pipeline sentimentPipeline reviews =
     (case initPipeline pipeline sentimentPipeline of
        (Inl e, mem) \<Rightarrow> (Inl e, mem)
      | (Inr pipe, mem) \<Rightarrow> (Inr (analyzeLoop lc pipe 0 reviews []), mem))"

section \<open>The recommendation service (geminiService.js)\<close>

text \<open>
  The effects of the service are the calls to the generative model and the pauses. The
  world records them in order, and counts the calls. The generative capability is
  external: \<open>gen k prompt\<close> is the outcome of call number \<open>k\<close> (from 0) made with
  \<open>prompt\<close>, \<open>Inl\<close> when \<^verbatim>\<open>generateContent\<close>, \<^verbatim>\<open>result.response\<close> or \<^verbatim>\<open>response.text()\<close>
  throws, \<open>Inr\<close> the text otherwise. Any sequence of outcomes is such a function.
\<close>

datatype event = GenerateContent jsstring | Sleep nat

record world =
  calls :: nat
  trace :: "event list"

type_synonym generator = "nat \<Rightarrow> jsstring \<Rightarrow> jserror + jsstring"

definition generateContent ::
  "generator \<Rightarrow> jsstring \<Rightarrow> world \<Rightarrow> (jserror + jsstring) \<times> world" where
  "generateContent gen prompt w =
     (gen (calls w) prompt,
      w\<lparr>calls := calls w + 1, trace := trace w @ [GenerateContent prompt]\<rparr>)"

definition sleep :: "nat \<Rightarrow> world \<Rightarrow> world" where
  "sleep ms w = w\<lparr>trace := trace w @ [Sleep ms]\<rparr>"

text \<open>
  \<^verbatim>\<open>chunkArray(array, size)\<close> with \<open>sz\<close> for \<^verbatim>\<open>size\<close>. The loop \<^verbatim>\<open>for (let i = 0; i < array.length; i += size)\<close>
  need not end, so it is a partial function: \<open>None\<close> is a loop that never ends.
\<close>

partial_function (option) chunkArrayLoop ::
  "'a list \<Rightarrow> int \<Rightarrow> int \<Rightarrow> 'a list list \<Rightarrow> 'a list list option" where
  "chunkArrayLoop array sz i chunks =
     (if i < int (length array)
      then chunkArrayLoop array sz (i + sz) (chunks @ [slice array i (i + sz)])
      else Some chunks)"

definition chunkArray :: "'a list \<Rightarrow> int \<Rightarrow> 'a list list option" where
  "chunkArray array sz = chunkArrayLoop array sz 0 []"

text \<open>The prompt of one chunk (the first template literal).\<close>

definition chunkPrompt :: "jsstring list \<Rightarrow> jsstring" where
  "chunkPrompt chunk =
     jsstr ''\<newline>You are an educational consultant analyzing student feedback. Below are ''
     @ showNat (length chunk)
     @ jsstr '' negative reviews from students:\<newline>\<newline>''
     @ join (jsstr ''\<newline>'')
         (map (\<lambda>(idx, review). showNat (idx + 1) @ jsstr ''. '' @ review) (enumerate 0 chunk))
     @ jsstr ''\<newline>\<newline>Please provide:\<newline>''
     @ jsstr ''1. **Key Issues Identified**: Summarize the main problems mentioned\<newline>''
     @ jsstr ''2. **Common Themes**: What patterns do you see across these reviews?\<newline>''
     @ jsstr ''3. **Priority Areas**: What should be addressed first?\<newline>''
     @ jsstr ''4. **Specific Recommendations**: Actionable steps to improve\<newline>''
     @ jsstr ''\<newline>Keep your analysis concise and actionable.\<newline>''"

text \<open>The prompt of the final aggregation call (the second template literal).\<close>

definition finalPrompt :: "jsstring list \<Rightarrow> jsstring" where
  "finalPrompt batchResults =
     jsstr ''\<newline>Based on the following analyses of student feedback batches, ''
     @ jsstr ''provide a comprehensive summary with actionable recommendations:\<newline>\<newline>''
     @ join (jsstr ''\<newline>'')
         (map (\<lambda>(idx, result).
                 jsstr ''\<newline>### Batch '' @ showNat (idx + 1) @ jsstr '' Analysis:\<newline>'' @ result)
              (enumerate 0 batchResults))
     @ jsstr ''\<newline>\<newline>Please provide:\<newline>''
     @ jsstr ''1. **Overall Summary**: What are the most critical issues?\<newline>''
     @ jsstr ''2. **Top 5 Recommendations**: Prioritized, actionable steps\<newline>''
     @ jsstr ''3. **Quick Wins**: Easy improvements that can be implemented immediately\<newline>''
     @ jsstr ''4. **Long-term Strategy**: Structural changes for sustained improvement\<newline>''
     @ jsstr ''\<newline>Format your response in clear markdown.\<newline>''"

text \<open>The string pushed in the \<^verbatim>\<open>catch\<close> of chunk \<open>i\<close> (counted from 0).\<close>

definition batchError :: "nat \<Rightarrow> jserror \<Rightarrow> jsstring" where
  "batchError i error =
     jsstr ''Error processing batch '' @ showNat (i + 1) @ jsstr '': '' @ message error"

text \<open>The divider of the fallback, \<^verbatim>\<open>'\n\n---\n\n'\<close>.\<close>

definition divider :: jsstring where
  "divider = jsstr ''\<newline>\<newline>---\<newline>\<newline>''"

text \<open>
  The \<^verbatim>\<open>for\<close> loop over the chunks, from index \<open>i\<close>, with \<^verbatim>\<open>batchResults\<close> and the world
  passed through.
\<close>

function chunkLoop ::
  "generator \<Rightarrow> jsstring list list \<Rightarrow> nat \<Rightarrow> jsstring list \<Rightarrow> world \<Rightarrow> jsstring list \<times> world" where
  "chunkLoop gen chunks i batchResults w =
     (if i < length chunks then
        (let prompt = chunkPrompt (chunks ! i);
             (outcome, w1) = generateContent gen prompt w;
             batchResults1 =
               (case outcome of
                  Inr text \<Rightarrow> batchResults @ [text]
                | Inl error \<Rightarrow> batchResults @ [batchError i error]);
             w2 = (if int i < int (length chunks) - 1 then sleep 1000 w1 else w1)
         in chunkLoop gen chunks (i + 1) batchResults1 w2)
      else (batchResults, w))"
  by pat_completeness auto
termination
  by (relation "measure (\<lambda>(gen, chunks, i, batchResults, w). length chunks - i)") auto

declare chunkLoop.simps [simp del]

text \<open>
  Two abbreviations for what one iteration of that loop contributes, used to state its
  result: the entry pushed for chunk \<open>j\<close> when \<open>c0\<close> calls had been made before the loop
  started, and the events of iteration \<open>j\<close>.
\<close>

definition batchEntry :: "generator \<Rightarrow> jsstring list list \<Rightarrow> nat \<Rightarrow> nat \<Rightarrow> jsstring" where
  "batchEntry gen chunks c0 j =
     (case gen (c0 + j) (chunkPrompt (chunks ! j)) of
        Inr text \<Rightarrow> text
      | Inl error \<Rightarrow> batchError j error)"

definition chunkEvents :: "jsstring list list \<Rightarrow> nat \<Rightarrow> event list" where
  "chunkEvents chunks j =
     GenerateContent (chunkPrompt (chunks ! j)) #
       (if Suc j < length chunks then [Sleep 1000] else [])"

text \<open>
  \<^verbatim>\<open>analyzeAndRecommend(reviews, chunkSize)\<close> with the environment variable
  \<^verbatim>\<open>GEMINI_API_KEY\<close> as \<open>apiKey\<close> (absent or empty is not configured). \<open>None\<close>: the call
  never returns; \<open>Some (Inl e, w)\<close>: it throws \<open>e\<close>; \<open>Some (Inr text, w)\<close>: it returns
  \<open>text\<close>.
\<close>

definition analyzeAndRecommend ::
  "jsstring option \<Rightarrow> generator \<Rightarrow> jsstring list \<Rightarrow> int \<Rightarrow> world
     \<Rightarrow> ((jserror + jsstring) \<times> world) option" where
  "analyzeAndRecommend apiKey gen reviews chunkSize w =
     (if apiKey = None \<or> apiKey = Some [] then
        Some (Inl (Error (jsstr ''GEMINI_API_KEY not configured in environment variables'')), w)
      else
        (case chunkArray reviews chunkSize of
           None \<Rightarrow> None
         | Some chunks \<Rightarrow>
             (let (batchResults, w1) = chunkLoop gen chunks 0 [] w;
                  (outcome, w2) = generateContent gen (finalPrompt batchResults) w1
              in case outcome of
                   Inr text \<Rightarrow> Some (Inr text, w2)
                 | Inl error \<Rightarrow> Some (Inr (join divider batchResults), w2))))"

section \<open>The HTTP handlers (server.js)\<close>

text \<open>The JSON bodies the two handlers send, one constructor for each shape.\<close>

datatype response_body =
    ErrorBody jsstring
  | ErrorDetails jsstring "jsstring list"
  | MissingColumn jsstring "jsstring list"
  | AnalyzeOk nat "analyzedReview list"
  | CannedOk jsstring jsstring
  | RecommendOk nat jsstring
  | Failure jsstring jsstring

datatype response = Response (status: nat) (body: response_body)

text \<open>
  The CSV parser is a library. Its result for the uploaded file is the input of the
  model: the list of errors and the rows, each row an object from header to cell, written
  as the list of its entries in the order \<^verbatim>\<open>Object.keys\<close> enumerates them.
\<close>

type_synonym row = "(jsstring \<times> jsstring) list"

record parseResult =
  errors :: "jsstring list"
  data :: "row list"

text \<open>The filter of the review cells: \<^verbatim>\<open>review && review.trim() !== ''\<close>.\<close>

definition nonBlank :: "jsstring option \<Rightarrow> bool" where
  "nonBlank cell = (case cell of None \<Rightarrow> False | Some review \<Rightarrow> review \<noteq> [] \<and> trim review \<noteq> [])"

text \<open>\<^verbatim>\<open>Object.keys(data[0] || {})\<close>: the headers are the keys of the first row.\<close>

definition headersOf :: "parseResult \<Rightarrow> jsstring list" where
  "headersOf parsed = (case data parsed of [] \<Rightarrow> [] | row0 # _ \<Rightarrow> map fst row0)"

definition missingColumnMessage :: jsstring where
  "missingColumnMessage =
     jsstr ''CSV must contain a '' @ [0x22] @ jsstr ''review'' @ [0x22]
     @ jsstr '' column (case-insensitive)''"

text \<open>
  \<^verbatim>\<open>POST /api/analyze\<close>. \<open>file\<close> is \<open>None\<close> when no file was uploaded, otherwise the
  parser's result for its text; \<open>lc\<close> is the lower-casing of the runtime.
\<close>

definition analyzeHandler ::
  "lowercase \<Rightarrow> loader \<Rightarrow> pipe option \<Rightarrow> parseResult option \<Rightarrow> response \<times> pipe option" where
  "analyzeHandler lc pipeline sentimentPipeline file =
     (case file of
        None \<Rightarrow> (Response 400 (ErrorBody (jsstr ''No file uploaded'')), sentimentPipeline)
      | Some parsed \<Rightarrow>
          if length (errors parsed) > 0 then
            (Response 400 (ErrorDetails (jsstr ''Invalid CSV format'') (errors parsed)),
             sentimentPipeline)
          else
            (let headers = headersOf parsed;
                 reviewColumn = find (\<lambda>h. lc h = jsstr ''review'') headers
             in case reviewColumn of
                  None \<Rightarrow>
                    (Response 400 (MissingColumn missingColumnMessage headers), sentimentPipeline)
                | Some col \<Rightarrow>
                    (let reviews =
                           map the (filter nonBlank (map (\<lambda>r. map_of r col) (data parsed)))
                     in if length reviews = 0 then
                          (Response 400 (ErrorBody (jsstr ''No valid reviews found in CSV'')),
                           sentimentPipeline)
                        else
                          (case analyzeReviews lc pipeline sentimentPipeline reviews of
                             (Inl error, mem) \<Rightarrow>
                               (Response 500
                                  (Failure (jsstr ''Failed to analyze reviews'') (message error)),
                                mem)
                           | (Inr results, mem) \<Rightarrow>
                               (Response 200 (AnalyzeOk (length reviews) results), mem)))))"

text \<open>
  The body of \<^verbatim>\<open>POST /api/recommendations\<close>: \<open>negativeReviews\<close> is \<open>None\<close> when the field
  is missing or not an array; the two numbers are \<open>None\<close> when absent, and then take their
  defaults.
\<close>

record recommendationRequest =
  negativeReviews :: "jsstring list option"
  maxReviews :: "int option"
  chunkSize :: "int option"

text \<open>
  The canned answer for an empty array. Its last four code units are those of the source
  file as it is stored.
\<close>

definition cannedRecommendations :: jsstring where
  "cannedRecommendations =
     jsstr ''All reviews are positive! Keep up the great work! '' @ [0xF0, 0x178, 0x17D, 0x2030]"

text \<open>\<open>None\<close>: the handler never responds.\<close>

definition recommendationsHandler ::
  "jsstring option \<Rightarrow> generator \<Rightarrow> recommendationRequest \<Rightarrow> world \<Rightarrow> (response \<times> world) option" where
  "recommendationsHandler apiKey gen reqBody w =
     (let maxR = (case maxReviews reqBody of None \<Rightarrow> 100 | Some m \<Rightarrow> m);
          chunkS = (case chunkSize reqBody of None \<Rightarrow> 50 | Some c \<Rightarrow> c)
      in case negativeReviews reqBody of
           None \<Rightarrow>
             Some (Response 400
                     (ErrorBody (jsstr ''Invalid request: negativeReviews array required'')), w)
         | Some negReviews \<Rightarrow>
             if length negReviews = 0 then
               Some (Response 200
                       (CannedOk (jsstr ''No negative reviews to analyze'') cannedRecommendations), w)
             else
               (let reviewsToAnalyze = slice negReviews 0 maxR in
                case analyzeAndRecommend apiKey gen reviewsToAnalyze chunkS w of
                  None \<Rightarrow> None
                | Some (Inl error, w') \<Rightarrow>
                    Some (Response 500
                            (Failure (jsstr ''Failed to generate recommendations'') (message error)),
                          w')
                | Some (Inr recommendations, w') \<Rightarrow>
                    Some (Response 200 (RecommendOk (length reviewsToAnalyze) recommendations),
                          w')))"

section \<open>Deterministic stand-ins for the external capabilities\<close>

text \<open>
  A classifier that answers every call with the same array, one whose call number \<open>k\<close>
  throws, a loader that always resolves to the same classifier, the parser's results for
  three small files, and generative models that answer every call with the same outcome,
  throw at one call, or follow a script. They are the concrete inputs of the examples
  below.
\<close>

definition constPipe :: "classification list \<Rightarrow> pipe" where
  "constPipe result n text = Inr result"

definition pipeFailAt :: "nat \<Rightarrow> jserror \<Rightarrow> classification list \<Rightarrow> pipe" where
  "pipeFailAt k error result n text = (if n = k then Inl error else Inr result)"

definition constLoader :: "pipe \<Rightarrow> loader" where
  "constLoader p modelId = Inr p"

text \<open>
  What the parser returns for the comma-separated file with the header line \<^verbatim>\<open>id,h\<close>
  (\<open>h\<close> a plain word other than \<^verbatim>\<open>id\<close>) and the five lines \<^verbatim>\<open>1,Good\<close>, \<^verbatim>\<open>2,!!!\<close>,
  \<^verbatim>\<open>3,\<close> followed by three spaces, \<^verbatim>\<open>4,\<close> and \<^verbatim>\<open>5,Good\<close>: no error, and one object per
  line with the keys \<^verbatim>\<open>id\<close> and \<open>h\<close>.
\<close>

definition exampleFile :: "jsstring \<Rightarrow> parseResult" where
  "exampleFile h =
     \<lparr>errors = [],
      data =
        [[(jsstr ''id'', jsstr ''1''), (h, jsstr ''Good'')],
         [(jsstr ''id'', jsstr ''2''), (h, jsstr ''!!!'')],
         [(jsstr ''id'', jsstr ''3''), (h, jsstr ''   '')],
         [(jsstr ''id'', jsstr ''4''), (h, [])],
         [(jsstr ''id'', jsstr ''5''), (h, jsstr ''Good'')]]\<rparr>"

text \<open>
  What the parser returns for the file with the single header \<open>h\<close> and the line
  \<^verbatim>\<open>Good\<close>: with one column it cannot detect the delimiter and reports that, next to the
  row. An error is written as its code.
\<close>

definition oneColumnFile :: "jsstring \<Rightarrow> parseResult" where
  "oneColumnFile h =
     \<lparr>errors = [jsstr ''UndetectableDelimiter''], data = [[(h, jsstr ''Good'')]]\<rparr>"

text \<open>
  What the parser returns for the file that holds the header line \<^verbatim>\<open>id,review\<close> and no
  other line: no error and no row.
\<close>

definition headerOnlyFile :: parseResult where
  "headerOnlyFile = \<lparr>errors = [], data = []\<rparr>"

definition constGen :: "jserror + jsstring \<Rightarrow> generator" where
  "constGen outcome k prompt = outcome"

text \<open>A generative model whose call number \<open>k\<close> throws and whose other calls answer \<open>text\<close>.\<close>

definition failAt :: "nat \<Rightarrow> jserror \<Rightarrow> jsstring \<Rightarrow> generator" where
  "failAt k error text n prompt = (if n = k then Inl error else Inr text)"

text \<open>
  A generative model whose call number \<open>k\<close> has the outcome number \<open>k\<close> of a list, and
  throws once the list is used up.
\<close>

definition scriptGen :: "(jserror + jsstring) list \<Rightarrow> generator" where
  "scriptGen outcomes k prompt =
     (case drop k outcomes of [] \<Rightarrow> Inl (Error (jsstr ''quota'')) | outcome # _ \<Rightarrow> outcome)"

section \<open>Properties of the text normalizer\<close>

lemma space_isWhiteSpace: "isWhiteSpace 0x20"
  by (simp add: isWhiteSpace_def)

lemma isLowerAZ_not_space: "isLowerAZ c \<Longrightarrow> \<not> isWhiteSpace c"
  by (auto simp: isLowerAZ_def isWhiteSpace_def)

lemma jsstr_space: "jsstr '' '' = [0x20]"
  by (simp add: jsstr_def)

lemma replaceAll_special:
  "replaceAll specialPattern rep s =
     concat (map (\<lambda>c. if isLowerAZ c \<or> isWhiteSpace c then [c] else rep) s)"
  by (induction s) (simp_all add: specialPattern_def oneOf_def)

lemma spacesPattern_Cons:
  "spacesPattern (c # cs) =
     (if isWhiteSpace c then Some (Suc (length (takeWhile isWhiteSpace cs))) else None)"
  by (simp add: spacesPattern_def litPlus_def)

lemma replaceAll_spaces_Cons:
  "replaceAll spacesPattern rep (c # cs) =
     (if isWhiteSpace c then rep @ replaceAll spacesPattern rep (dropWhile isWhiteSpace cs)
      else c # replaceAll spacesPattern rep cs)"
  by (simp add: spacesPattern_Cons dropWhile_eq_drop)

lemma replaceAll_spaces_props:
  "\<forall>c\<in>set s. isLowerAZ c \<or> isWhiteSpace c \<Longrightarrow>
   (\<forall>c\<in>set (replaceAll spacesPattern [0x20] s). isLowerAZ c \<or> c = 0x20) \<and>
   singleSpaced (replaceAll spacesPattern [0x20] s) \<and>
   (s \<noteq> [] \<and> \<not> isWhiteSpace (hd s) \<longrightarrow>
      replaceAll spacesPattern [0x20] s \<noteq> [] \<and> hd (replaceAll spacesPattern [0x20] s) \<noteq> 0x20)"
proof (induction s rule: length_induct)
  case (1 s)
  show ?case
  proof (cases s)
    case Nil
    then show ?thesis by simp
  next
    case (Cons c cs)
    show ?thesis
    proof (cases "isWhiteSpace c")
      case False
      have len: "length cs < length s" using Cons by simp
      have sub: "\<forall>c\<in>set cs. isLowerAZ c \<or> isWhiteSpace c" using 1(2) Cons by simp
      have ih: "(\<forall>c\<in>set (replaceAll spacesPattern [0x20] cs). isLowerAZ c \<or> c = 0x20) \<and>
          singleSpaced (replaceAll spacesPattern [0x20] cs)"
        using 1(1) len sub by blast
      have c: "isLowerAZ c" "c \<noteq> 0x20" using False 1(2) Cons space_isWhiteSpace by auto
      have out: "replaceAll spacesPattern [0x20] s = c # replaceAll spacesPattern [0x20] cs"
        using Cons False by (simp add: replaceAll_spaces_Cons del: replaceAll.simps)
      show ?thesis using ih c unfolding out
        by (cases "replaceAll spacesPattern [0x20] cs") (auto simp: Cons)
    next
      case True
      let ?r = "dropWhile isWhiteSpace cs"
      have len: "length ?r < length s" using Cons length_dropWhile_le[of isWhiteSpace cs] by simp
      have sub: "\<forall>c\<in>set ?r. isLowerAZ c \<or> isWhiteSpace c"
        using 1(2) Cons set_dropWhileD[of _ isWhiteSpace cs] by auto
      have ih: "(\<forall>c\<in>set (replaceAll spacesPattern [0x20] ?r). isLowerAZ c \<or> c = 0x20) \<and>
          singleSpaced (replaceAll spacesPattern [0x20] ?r) \<and>
          (?r \<noteq> [] \<and> \<not> isWhiteSpace (hd ?r) \<longrightarrow>
             replaceAll spacesPattern [0x20] ?r \<noteq> [] \<and> hd (replaceAll spacesPattern [0x20] ?r) \<noteq> 0x20)"
        using 1(1) len sub by blast
      have hd: "?r \<noteq> [] \<Longrightarrow> \<not> isWhiteSpace (hd ?r)" by (rule hd_dropWhile)
      have out: "replaceAll spacesPattern [0x20] s = 0x20 # replaceAll spacesPattern [0x20] ?r"
        using Cons True by (simp add: replaceAll_spaces_Cons del: replaceAll.simps)
      show ?thesis
      proof (cases "?r = []")
        case True
        have "replaceAll spacesPattern [0x20] s = [0x20]" unfolding out True by simp
        then show ?thesis using \<open>isWhiteSpace c\<close> Cons by simp
      next
        case False
        with ih hd show ?thesis unfolding out using \<open>isWhiteSpace c\<close> Cons
          by (cases "replaceAll spacesPattern [0x20] ?r") auto
      qed
    qed
  qed
qed

lemma singleSpaced_nth:
  "singleSpaced s \<Longrightarrow> Suc i < length s \<Longrightarrow> \<not> (s ! i = 0x20 \<and> s ! Suc i = 0x20)"
proof (induction s arbitrary: i rule: singleSpaced.induct)
  case (1 a b cs)
  then show ?case by (cases i) auto
qed simp_all

lemma trim_take_drop: "\<exists>a b. trim s = take a (drop b s)"
proof -
  let ?t = "dropWhile isWhiteSpace s"
  have "trim s = rev (drop (length (takeWhile isWhiteSpace (rev ?t))) (rev ?t))"
    by (simp add: trim_def dropWhile_eq_drop[symmetric])
  also have "\<dots> = take (length ?t - length (takeWhile isWhiteSpace (rev ?t))) ?t"
    by (simp add: rev_drop)
  also have "?t = drop (length (takeWhile isWhiteSpace s)) s"
    by (rule dropWhile_eq_drop)
  finally show ?thesis by blast
qed

lemma trim_ends:
  assumes "trim s \<noteq> []"
  shows "\<not> isWhiteSpace (hd (trim s))" and "\<not> isWhiteSpace (last (trim s))"
proof -
  let ?t = "dropWhile isWhiteSpace s"
  let ?u = "dropWhile isWhiteSpace (rev ?t)"
  have u: "?u \<noteq> []" using assms by (simp add: trim_def)
  have "last (trim s) = hd ?u" using u by (simp add: trim_def last_rev)
  with hd_dropWhile[OF u] show "\<not> isWhiteSpace (last (trim s))" by simp
  have t: "?t \<noteq> []"
  proof
    assume "?t = []"
    then have "?u = []" by (simp only: rev.simps dropWhile.simps)
    with u show False by simp
  qed
  have "rev ?t = takeWhile isWhiteSpace (rev ?t) @ ?u" by simp
  then have "?t = rev ?u @ rev (takeWhile isWhiteSpace (rev ?t))"
    by (metis rev_append rev_rev_ident)
  then have "hd ?t = hd (rev ?u)" using u by (metis hd_append2 rev_is_Nil_conv)
  then have "hd (trim s) = hd ?t" by (simp add: trim_def)
  with hd_dropWhile[OF t] show "\<not> isWhiteSpace (hd (trim s))" by simp
qed

lemma cleanup_normalized:
  "(\<forall>c\<in>set (cleanup s). isLowerAZ c \<or> c = 0x20) \<and>
   (cleanup s \<noteq> [] \<longrightarrow> hd (cleanup s) \<noteq> 0x20 \<and> last (cleanup s) \<noteq> 0x20) \<and>
   (\<forall>i. Suc i < length (cleanup s) \<longrightarrow> \<not> (cleanup s ! i = 0x20 \<and> cleanup s ! Suc i = 0x20))"
proof -
  let ?t3 = "replaceAll specialPattern [0x20] (replaceAll tagPattern [] (replaceAll urlPattern [] s))"
  let ?t4 = "replaceAll spacesPattern [0x20] ?t3"
  have c: "cleanup s = trim ?t4" by (simp add: cleanup_def jsstr_space)
  have "\<forall>c\<in>set ?t3. isLowerAZ c \<or> isWhiteSpace c"
    by (auto simp: replaceAll_special space_isWhiteSpace split: if_splits)
  from replaceAll_spaces_props[OF this]
  have chars: "\<forall>c\<in>set ?t4. isLowerAZ c \<or> c = 0x20" and single: "singleSpaced ?t4"
    by blast+
  obtain a b where ab: "trim ?t4 = take a (drop b ?t4)" using trim_take_drop by blast
  have 1: "\<forall>c\<in>set (cleanup s). isLowerAZ c \<or> c = 0x20"
    unfolding c ab using chars by (meson in_set_dropD in_set_takeD)
  have 2: "cleanup s \<noteq> [] \<longrightarrow> hd (cleanup s) \<noteq> 0x20 \<and> last (cleanup s) \<noteq> 0x20"
    unfolding c using trim_ends[of ?t4] space_isWhiteSpace by metis
  have 3: "\<not> (cleanup s ! i = 0x20 \<and> cleanup s ! Suc i = 0x20)" if "Suc i < length (cleanup s)" for i
  proof -
    from that have l: "Suc i < length (take a (drop b ?t4))" by (simp only: c ab)
    then have lb: "Suc i < length ?t4 - b" and la: "Suc i < a" by simp_all
    from lb have "Suc (b + i) < length ?t4" and b: "b \<le> length ?t4" by arith+
    from singleSpaced_nth[OF single this(1)]
    have "\<not> (?t4 ! (b + i) = 0x20 \<and> ?t4 ! (b + Suc i) = 0x20)" by simp
    moreover have "take a (drop b ?t4) ! i = ?t4 ! (b + i)"
      using la b by simp
    moreover have "take a (drop b ?t4) ! Suc i = ?t4 ! (b + Suc i)"
      using la b by (simp del: add_Suc_right)
    ultimately show ?thesis unfolding c ab by simp
  qed
  from 1 2 3 show ?thesis by blast
qed

text \<open>
  Claim C4. For every input string, the output of \<open>preprocessText\<close> contains only
  lower-case ASCII letters and the space U+0020, it neither starts nor ends with a space,
  and no two spaces are neighbours. (By \<open>cleanup_normalized\<close> this is a property of the
  replacements and the trim alone: it holds whatever the lower-casing makes of the text.)
\<close>

theorem preprocessText_normalized:
  "(\<forall>c\<in>set (preprocessText text). isLowerAZ c \<or> c = 0x20) \<and>
   (preprocessText text \<noteq> [] \<longrightarrow>
      hd (preprocessText text) \<noteq> 0x20 \<and> last (preprocessText text) \<noteq> 0x20) \<and>
   (\<forall>i. Suc i < length (preprocessText text) \<longrightarrow>
      \<not> (preprocessText text ! i = 0x20 \<and> preprocessText text ! Suc i = 0x20))"
  unfolding preprocessText_def by (rule cleanup_normalized)

text \<open>The theorem at a concrete review, whose output is not empty.\<close>

theorem preprocessText_normalized_witness:
  "preprocessText (jsstr ''  Great course, 10/10!  '') = jsstr ''great course'' \<and>
   preprocessText (jsstr ''  Great course, 10/10!  '') \<noteq> [] \<and>
   list_all (\<lambda>c. isLowerAZ c \<or> c = 0x20) (preprocessText (jsstr ''  Great course, 10/10!  '')) \<and>
   hd (preprocessText (jsstr ''  Great course, 10/10!  '')) \<noteq> 0x20 \<and>
   last (preprocessText (jsstr ''  Great course, 10/10!  '')) \<noteq> 0x20 \<and>
   \<not> (preprocessText (jsstr ''  Great course, 10/10!  '') ! 5 = 0x20 \<and>
      preprocessText (jsstr ''  Great course, 10/10!  '') ! Suc 5 = 0x20)"
proof -
  have 1: "toLowerCase (jsstr ''  Great course, 10/10!  '') = jsstr ''  great course, 10/10!  ''"
    by (simp add: toLowerCase_def jsstr_def lowerUnit_def)
  have 2: "replaceAll urlPattern [] (jsstr ''  great course, 10/10!  '') = jsstr ''  great course, 10/10!  ''"
    by (simp add: jsstr_def urlPattern_def alt_def litPlus_def notWhiteSpace_def isWhiteSpace_def)
  have 3: "replaceAll tagPattern [] (jsstr ''  great course, 10/10!  '') = jsstr ''  great course, 10/10!  ''"
    by (simp add: jsstr_def tagPattern_def alt_def litPlus_def isWordChar_def)
  have 4: "replaceAll specialPattern (jsstr '' '') (jsstr ''  great course, 10/10!  '') = jsstr ''  great course          ''"
    by (simp add: jsstr_def specialPattern_def oneOf_def isLowerAZ_def isWhiteSpace_def)
  have 5: "replaceAll spacesPattern (jsstr '' '') (jsstr ''  great course          '') = jsstr '' great course ''"
    by (simp add: jsstr_def spacesPattern_def litPlus_def isWhiteSpace_def)
  have 6: "trim (jsstr '' great course '') = jsstr ''great course''"
    by (simp add: jsstr_def trim_def isWhiteSpace_def)
  have e: "preprocessText (jsstr ''  Great course, 10/10!  '') = jsstr ''great course''"
    by (simp only: preprocessText_def cleanup_def 1 2 3 4 5 6)
  have ne: "preprocessText (jsstr ''  Great course, 10/10!  '') \<noteq> []"
    unfolding e by (simp add: jsstr_def)
  have len: "Suc 5 < length (preprocessText (jsstr ''  Great course, 10/10!  ''))"
    unfolding e by (simp add: jsstr_def)
  show ?thesis
    using preprocessText_normalized[of "jsstr ''  Great course, 10/10!  ''"] ne len e
    unfolding list_all_iff by blast
qed

text \<open>The stages of the normalizer on the example of the specification.\<close>

lemma preprocessText_example:
  "preprocessText (jsstr ''Hi! @bob #great http://x.co'') = jsstr ''hi''"
proof -
  have 1: "toLowerCase (jsstr ''Hi! @bob #great http://x.co'') = jsstr ''hi! @bob #great http://x.co''"
    by (simp add: toLowerCase_def jsstr_def lowerUnit_def)
  have 2: "replaceAll urlPattern [] (jsstr ''hi! @bob #great http://x.co'') = jsstr ''hi! @bob #great ''"
    by (simp add: jsstr_def urlPattern_def alt_def litPlus_def notWhiteSpace_def isWhiteSpace_def)
  have 3: "replaceAll tagPattern [] (jsstr ''hi! @bob #great '') = jsstr ''hi!   ''"
    by (simp add: jsstr_def tagPattern_def alt_def litPlus_def isWordChar_def)
  have 4: "replaceAll specialPattern (jsstr '' '') (jsstr ''hi!   '') = jsstr ''hi    ''"
    by (simp add: jsstr_def specialPattern_def oneOf_def isLowerAZ_def isWhiteSpace_def)
  have 5: "replaceAll spacesPattern (jsstr '' '') (jsstr ''hi    '') = jsstr ''hi ''"
    by (simp add: jsstr_def spacesPattern_def litPlus_def isWhiteSpace_def)
  have 6: "trim (jsstr ''hi '') = jsstr ''hi''"
    by (simp add: jsstr_def trim_def isWhiteSpace_def)
  show ?thesis
    by (simp only: preprocessText_def cleanup_def 1 2 3 4 5 6)
qed

text \<open>
  Claim C3, as stated, fails: on \<^verbatim>\<open>"Hi! @bob #great http://x.co"\<close> the output is not
  \<^verbatim>\<open>"hi great"\<close>. The pattern \<^verbatim>\<open>#\w+\<close> removes the hashtag together with its word.
\<close>

theorem preprocessText_example_not_hi_great:
  "preprocessText (jsstr ''Hi! @bob #great http://x.co'') \<noteq> jsstr ''hi great''"
  unfolding preprocessText_example by (simp add: jsstr_def)

text \<open>
  Claim C3, amended: \<open>preprocessText\<close> applied to \<^verbatim>\<open>"Hi! @bob #great http://x.co"\<close>
  returns \<^verbatim>\<open>"hi"\<close>.
\<close>

theorem preprocessText_example_hi:
  "preprocessText (jsstr ''Hi! @bob #great http://x.co'') = jsstr ''hi''"
  by (rule preprocessText_example)

section \<open>Properties of the sentiment service\<close>

lemma pow2_simps:
  "pow2 0 = 1" "pow2 1 = 2" "pow2 (- 1) = 1 / 2"
  "pow2 (numeral k) = 2 ^ numeral k" "pow2 (- numeral k) = 1 / 2 ^ numeral k"
  by (simp_all add: pow2_def)

lemma roundHalfEven_near:
  assumes "of_int n - 1 / 2 < x" and "x < of_int n + 1 / 2"
  shows "roundHalfEven x = n"
proof -
  have "of_int (n - 1) \<le> x" using assms(1) by simp
  then have a: "n - 1 \<le> \<lfloor>x\<rfloor>" by (simp only: le_floor_iff)
  have "x < of_int (n + 1)" using assms(2) by simp
  then have b: "\<lfloor>x\<rfloor> < n + 1" by (simp only: floor_less_iff)
  from a b consider "\<lfloor>x\<rfloor> = n" | "\<lfloor>x\<rfloor> = n - 1" by linarith
  then show ?thesis
  proof cases
    case 1
    with assms(2) show ?thesis by (simp add: roundHalfEven_def Let_def)
  next
    case 2
    with assms(1) show ?thesis by (simp add: roundHalfEven_def Let_def)
  qed
qed

lemma roundToDouble_pos:
  assumes "0 < x" and "exponentOf x = e" and "e < 1023"
    and "of_int n - 1 / 2 < x / pow2 (e - 52)" and "x / pow2 (e - 52) < of_int n + 1 / 2"
  shows "roundToDouble x = Finite (of_int n * pow2 (e - 52))"
  using assms roundHalfEven_near[OF assms(4,5)]
  by (simp add: roundToDouble_def Let_def)

lemma toRecord_simps:
  "originalReview (toRecord lc review cleaned result) = review"
  "cleanedText (toRecord lc review cleaned result) = cleaned"
  "confidence (toRecord lc review cleaned result) = round3 (scoreOf result)"
  "sentiment (toRecord lc review cleaned result) =
     (if mapLabel (labelOf lc result) \<noteq> Neutral \<and> numLess (scoreOf result) NEUTRAL_SCORE_THRESHOLD
      then Neutral else mapLabel (labelOf lc result))"
  by (simp_all add: toRecord_def Let_def)

lemma analyzeLoop_acc:
  "analyzeLoop lc pipe k reviews results = results @ analyzeLoop lc pipe k reviews []"
proof (induction reviews arbitrary: k results)
  case Nil
  show ?case by simp
next
  case (Cons review rest)
  show ?case
  proof (cases "preprocessTextWith lc review = []")
    case True
    then show ?thesis using Cons[of k results] by simp
  next
    case False
    show ?thesis
    proof (cases "pipe k (slice (preprocessTextWith lc review) 0 512)")
      case (Inl e)
      with False show ?thesis using Cons[of "k + 1" results] by (simp add: Let_def)
    next
      case (Inr result)
      with False show ?thesis
        using Cons[of "k + 1" "results @ [toRecord lc review (preprocessTextWith lc review) result]"]
          Cons[of "k + 1" "[toRecord lc review (preprocessTextWith lc review) result]"]
        by (simp add: Let_def)
    qed
  qed
qed

lemma analyzeLoop_Cons:
  "analyzeLoop lc pipe k (review # rest) [] =
     (if preprocessTextWith lc review = [] then analyzeLoop lc pipe k rest []
      else
        (case pipe k (slice (preprocessTextWith lc review) 0 512) of
           Inl error \<Rightarrow> analyzeLoop lc pipe (k + 1) rest []
         | Inr result \<Rightarrow>
             toRecord lc review (preprocessTextWith lc review) result #
               analyzeLoop lc pipe (k + 1) rest []))"
  using analyzeLoop_acc[of lc pipe "k + 1" rest
      "[toRecord lc review (preprocessTextWith lc review) result]" for result]
  by (simp add: Let_def split: sum.split)

lemma analyzeLoop_mem:
  "r \<in> set (analyzeLoop lc pipe k reviews []) \<Longrightarrow>
   \<exists>review j result. review \<in> set reviews \<and> preprocessTextWith lc review \<noteq> [] \<and>
      pipe j (slice (preprocessTextWith lc review) 0 512) = Inr result \<and>
      r = toRecord lc review (preprocessTextWith lc review) result"
proof (induction reviews arbitrary: k)
  case Nil
  then show ?case by simp
next
  case (Cons review rest)
  from Cons.prems consider
    (here) result where "preprocessTextWith lc review \<noteq> []"
      "pipe k (slice (preprocessTextWith lc review) 0 512) = Inr result"
      "r = toRecord lc review (preprocessTextWith lc review) result"
    | (later) k' where "r \<in> set (analyzeLoop lc pipe k' rest [])"
    unfolding analyzeLoop_Cons by (auto split: if_splits sum.splits)
  then show ?case
  proof cases
    case here
    have "review \<in> set (review # rest)" by simp
    with here show ?thesis by blast
  next
    case later
    from Cons.IH[OF this] obtain review' j result where
      "review' \<in> set rest" "preprocessTextWith lc review' \<noteq> []"
      "pipe j (slice (preprocessTextWith lc review') 0 512) = Inr result"
      "r = toRecord lc review' (preprocessTextWith lc review') result"
      by blast
    moreover then have "review' \<in> set (review # rest)" by simp
    ultimately show ?thesis by blast
  qed
qed

lemma analyzeLoop_subseq:
  "subseq (map originalReview (analyzeLoop lc pipe k reviews []))
     (filter (\<lambda>s. preprocessTextWith lc s \<noteq> []) reviews)"
proof (induction reviews arbitrary: k)
  case Nil
  show ?case by simp
next
  case (Cons review rest)
  show ?case
    unfolding analyzeLoop_Cons using Cons[of k] Cons[of "k + 1"]
    by (auto simp: toRecord_simps split: sum.split)
qed

lemma analyzeLoop_complete:
  assumes "\<forall>k t. \<exists>res. pipe k t = Inr res"
  shows "map originalReview (analyzeLoop lc pipe k reviews []) =
     filter (\<lambda>s. preprocessTextWith lc s \<noteq> []) reviews"
proof (induction reviews arbitrary: k)
  case Nil
  show ?case by simp
next
  case (Cons review rest)
  from assms obtain res where "pipe k (slice (preprocessTextWith lc review) 0 512) = Inr res"
    by blast
  then show ?case
    unfolding analyzeLoop_Cons using Cons[of k] Cons[of "k + 1"]
    by (simp add: toRecord_simps)
qed

lemma analyzeReviews_Inr:
  assumes "analyzeReviews lc pipeline mem reviews = (Inr results, mem')"
  shows "\<exists>pipe. initPipeline pipeline mem = (Inr pipe, mem') \<and>
           results = analyzeLoop lc pipe 0 reviews []"
proof (cases "initPipeline pipeline mem")
  case (Pair outcome m)
  show ?thesis
  proof (cases outcome)
    case (Inl e)
    with assms Pair show ?thesis by (simp add: analyzeReviews_def)
  next
    case (Inr pipe)
    with assms Pair show ?thesis by (auto simp: analyzeReviews_def)
  qed
qed

lemma round3_Finite:
  assumes "roundToDouble (q * 1000) = Finite p"
  shows "round3 (Finite q) = roundToDouble (of_int \<lfloor>p + 1 / 2\<rfloor> / 1000)"
  using assms by (simp add: round3_def numTimes_def numOver_def mathRound_def)

text \<open>
  Claim C1. Every record of a successful \<open>analyzeReviews\<close> comes from a review of the
  input whose classifier call resolved to an array \<open>result\<close>, and its cleaned text is the
  normalized review. Its confidence is \<^verbatim>\<open>Math.round(score * 1000) / 1000\<close> in double
  arithmetic, whatever the label and the threshold decide: for a finite score whose product
  with 1000 is the double \<open>p\<close>, it is the double nearest to \<open>n / 1000\<close>, where \<open>n\<close> is
  the integer nearest to \<open>p\<close> (a tie going up). The stored sentiment is neutral when the
  mapped label is not neutral and the score is below 0.80, and the mapped label when the
  score is at least 0.80; minus infinity is below the threshold, plus infinity and \<^verbatim>\<open>NaN\<close>
  are not. A neutral mapped label is stored as neutral.
\<close>

theorem threshold_policy:
  assumes "analyzeReviews lc pipeline mem reviews = (Inr results, mem')"
    and "r \<in> set results"
  shows "\<exists>pipe k result.
           initPipeline pipeline mem = (Inr pipe, mem') \<and>
           originalReview r \<in> set reviews \<and>
           cleanedText r = preprocessTextWith lc (originalReview r) \<and>
           pipe k (slice (cleanedText r) 0 512) = Inr result \<and>
           confidence r = numOver (mathRound (numTimes (scoreOf result) 1000)) 1000 \<and>
           (\<forall>q p. scoreOf result = Finite q \<and> roundToDouble (q * 1000) = Finite p \<longrightarrow>
              (\<exists>n::int. of_int n \<le> p + 1 / 2 \<and> p + 1 / 2 < of_int n + 1 \<and>
                 confidence r = roundToDouble (of_int n / 1000))) \<and>
           (\<forall>q. scoreOf result = Finite q \<and> q < 80 / 100 \<and>
                mapLabel (labelOf lc result) \<noteq> Neutral \<longrightarrow> sentiment r = Neutral) \<and>
           (\<forall>q. scoreOf result = Finite q \<and> 80 / 100 \<le> q \<longrightarrow>
                sentiment r = mapLabel (labelOf lc result)) \<and>
           (scoreOf result = NegInf \<and> mapLabel (labelOf lc result) \<noteq> Neutral \<longrightarrow>
                sentiment r = Neutral) \<and>
           (scoreOf result = PosInf \<or> scoreOf result = NaN \<longrightarrow>
                sentiment r = mapLabel (labelOf lc result)) \<and>
           (mapLabel (labelOf lc result) = Neutral \<longrightarrow> sentiment r = Neutral)"
proof -
  from analyzeReviews_Inr[OF assms(1)] obtain pipe where
    init: "initPipeline pipeline mem = (Inr pipe, mem')" and
    res: "results = analyzeLoop lc pipe 0 reviews []" by blast
  from analyzeLoop_mem[of r lc pipe 0 reviews] assms(2) res obtain review j result where
    mem: "review \<in> set reviews" and
    p: "pipe j (slice (preprocessTextWith lc review) 0 512) = Inr result" and
    r: "r = toRecord lc review (preprocessTextWith lc review) result"
    by blast
  have conf: "confidence r = numOver (mathRound (numTimes (scoreOf result) 1000)) 1000"
    unfolding r by (simp add: toRecord_simps round3_def)
  have rounded: "\<exists>n::int. of_int n \<le> p + 1 / 2 \<and> p + 1 / 2 < of_int n + 1 \<and>
      confidence r = roundToDouble (of_int n / 1000)"
    if "scoreOf result = Finite q" and "roundToDouble (q * 1000) = Finite p" for q p
  proof -
    have "confidence r = roundToDouble (of_int \<lfloor>p + 1 / 2\<rfloor> / 1000)"
      unfolding r using that by (simp add: toRecord_simps round3_Finite)
    moreover have "of_int \<lfloor>p + 1 / 2\<rfloor> \<le> p + 1 / 2" "p + 1 / 2 < of_int \<lfloor>p + 1 / 2\<rfloor> + 1"
      by linarith+
    ultimately show ?thesis by blast
  qed
  have low: "sentiment r = Neutral"
    if "scoreOf result = Finite q" and "q < 80 / 100" and "mapLabel (labelOf lc result) \<noteq> Neutral"
    for q
    unfolding r using that
    by (simp add: toRecord_simps numLess_def NEUTRAL_SCORE_THRESHOLD_def)
  have high: "sentiment r = mapLabel (labelOf lc result)"
    if "scoreOf result = Finite q" and "80 / 100 \<le> q" for q
    unfolding r using that
    by (simp add: toRecord_simps numLess_def NEUTRAL_SCORE_THRESHOLD_def)
  have neu: "mapLabel (labelOf lc result) = Neutral \<longrightarrow> sentiment r = Neutral"
    unfolding r by (simp add: toRecord_simps)
  have ninf: "scoreOf result = NegInf \<and> mapLabel (labelOf lc result) \<noteq> Neutral \<longrightarrow>
      sentiment r = Neutral"
    unfolding r by (simp add: toRecord_simps numLess_def)
  have other: "scoreOf result = PosInf \<or> scoreOf result = NaN \<longrightarrow>
      sentiment r = mapLabel (labelOf lc result)"
    unfolding r by (auto simp: toRecord_simps numLess_def)
  have o: "originalReview r = review" and c: "cleanedText r = preprocessTextWith lc review"
    unfolding r by (simp_all add: toRecord_simps)
  show ?thesis
    apply (rule exI[of _ pipe], rule exI[of _ j], rule exI[of _ result])
    using init mem p conf rounded low high ninf other neu unfolding o c by blast
qed

lemmas norm_defs = preprocessTextWith_def cleanup_def toLowerCase_def lowerUnit_def
  urlPattern_def tagPattern_def specialPattern_def spacesPattern_def alt_def litPlus_def oneOf_def
  trim_def isWhiteSpace_def notWhiteSpace_def isWordChar_def isLowerAZ_def

lemma round3_055:
  "round3 (Finite (2476979795053773 / 4503599627370496)) =
     Finite (2476979795053773 / 4503599627370496)"
proof -
  have e1: "exponentOf (2476979795053773 / 4503599627370496 * 1000) = 9"
    by (simp add: exponentOf_def upExp.simps pow2_simps)
  have t: "roundToDouble (2476979795053773 / 4503599627370496 * 1000) = Finite 550"
    using roundToDouble_pos[OF _ e1, of 4837851162214400] by (simp add: pow2_simps)
  have f: "\<lfloor>(550 :: rat) + 1 / 2\<rfloor> = 550" by (rule floor_unique) simp_all
  have e2: "exponentOf (550 / 1000) = - 1"
    by (simp add: exponentOf_def downExp.simps pow2_simps)
  have d: "roundToDouble (of_int 550 / 1000) = Finite (2476979795053773 / 4503599627370496)"
    using roundToDouble_pos[OF _ _ _ _ _, of "550 / 1000" "- 1" 4953959590107546] e2
    by (simp add: pow2_simps)
  show ?thesis unfolding round3_Finite[OF t] f d ..
qed

lemma round3_092:
  "round3 (Finite (8286623314361713 / 9007199254740992)) =
     Finite (8286623314361713 / 9007199254740992)"
proof -
  have e1: "exponentOf (8286623314361713 / 9007199254740992 * 1000) = 9"
    by (simp add: exponentOf_def upExp.simps pow2_simps)
  have t: "roundToDouble (8286623314361713 / 9007199254740992 * 1000) = Finite 920"
    using roundToDouble_pos[OF _ e1, of 8092405580431360] by (simp add: pow2_simps)
  have f: "\<lfloor>(920 :: rat) + 1 / 2\<rfloor> = 920" by (rule floor_unique) simp_all
  have e2: "exponentOf (920 / 1000) = - 1"
    by (simp add: exponentOf_def downExp.simps pow2_simps)
  have d: "roundToDouble (of_int 920 / 1000) = Finite (8286623314361713 / 9007199254740992)"
    using roundToDouble_pos[OF _ _ _ _ _, of "920 / 1000" "- 1" 8286623314361713] e2
    by (simp add: pow2_simps)
  show ?thesis unfolding round3_Finite[OF t] f d ..
qed

lemma round3_08005:
  "round3 (Finite (1802565750855041 / 2251799813685248)) =
     Finite (7214766603047535 / 9007199254740992)"
proof -
  have e1: "exponentOf (1802565750855041 / 2251799813685248 * 1000) = 9"
    by (simp add: exponentOf_def upExp.simps pow2_simps)
  have t: "roundToDouble (1802565750855041 / 2251799813685248 * 1000) = Finite (1601 / 2)"
    using roundToDouble_pos[OF _ e1, of 7041272464277504] by (simp add: pow2_simps)
  have f: "\<lfloor>(1601 / 2 :: rat) + 1 / 2\<rfloor> = 801" by (rule floor_unique) simp_all
  have e2: "exponentOf (801 / 1000) = - 1"
    by (simp add: exponentOf_def downExp.simps pow2_simps)
  have d: "roundToDouble (of_int 801 / 1000) = Finite (7214766603047535 / 9007199254740992)"
    using roundToDouble_pos[OF _ _ _ _ _, of "801 / 1000" "- 1" 7214766603047535] e2
    by (simp add: pow2_simps)
  show ?thesis unfolding round3_Finite[OF t] f d ..
qed

lemma double_literals:
  "roundToDouble (55 / 100) = Finite (2476979795053773 / 4503599627370496)"
  "roundToDouble (92 / 100) = Finite (8286623314361713 / 9007199254740992)"
  "roundToDouble (8005 / 10000) = Finite (1802565750855041 / 2251799813685248)"
  "roundToDouble (801 / 1000) = Finite (7214766603047535 / 9007199254740992)"
proof -
  have e: "exponentOf (55 / 100) = - 1" "exponentOf (92 / 100) = - 1"
    "exponentOf (8005 / 10000) = - 1" "exponentOf (801 / 1000) = - 1"
    by (simp_all add: exponentOf_def downExp.simps pow2_simps)
  show "roundToDouble (55 / 100) = Finite (2476979795053773 / 4503599627370496)"
    using roundToDouble_pos[OF _ e(1), of 4953959590107546] by (simp add: pow2_simps)
  show "roundToDouble (92 / 100) = Finite (8286623314361713 / 9007199254740992)"
    using roundToDouble_pos[OF _ e(2), of 8286623314361713] by (simp add: pow2_simps)
  show "roundToDouble (8005 / 10000) = Finite (1802565750855041 / 2251799813685248)"
    using roundToDouble_pos[OF _ e(3), of 7210263003420164] by (simp add: pow2_simps)
  show "roundToDouble (801 / 1000) = Finite (7214766603047535 / 9007199254740992)"
    using roundToDouble_pos[OF _ e(4), of 7214766603047535] by (simp add: pow2_simps)
qed

lemma preprocessText_bad: "preprocessTextWith toLowerCase (jsstr ''Bad'') = jsstr ''bad''"
  by (simp add: jsstr_def norm_defs)

lemma mapLabel_Negative:
  "mapLabel (labelOf toLowerCase [\<lparr>label = Some (jsstr ''Negative''), score = s\<rparr>]) = Negative"
  by (simp add: mapLabel_def labelOf_def toLowerCase_def lowerUnit_def jsstr_def)

lemma mapLabel_Positive:
  "mapLabel (labelOf toLowerCase [\<lparr>label = Some (jsstr ''Positive''), score = s\<rparr>]) = Positive"
  by (simp add: mapLabel_def labelOf_def toLowerCase_def lowerUnit_def jsstr_def)

lemma scoreOf_Some: "scoreOf [\<lparr>label = l, score = Some s\<rparr>] = s"
  by (simp add: scoreOf_def)

lemma initPipeline_constLoader: "initPipeline (constLoader p) None = (Inr p, Some p)"
  by (simp add: initPipeline_def constLoader_def)

lemma jsstr_bad: "jsstr ''bad'' \<noteq> []"
  by (simp add: jsstr_def)

lemma analyzeReviews_one:
  assumes "pipe 0 (slice (jsstr ''bad'') 0 512) = Inr result"
  shows "analyzeReviews toLowerCase (constLoader pipe) None [jsstr ''Bad''] =
     (Inr [toRecord toLowerCase (jsstr ''Bad'') (jsstr ''bad'') result], Some pipe)"
  using assms jsstr_bad
  by (simp add: analyzeReviews_def initPipeline_constLoader preprocessText_bad Let_def)

text \<open>
  The two examples of the claim, with the doubles that are written 0.55 and 0.92: label
  "Negative" with score 0.55 is stored as neutral with confidence 0.55, label "Positive"
  with score 0.92 as positive with confidence 0.92. A third run shows the rounding: the
  score 0.8005, above the threshold, keeps the label "Negative" and is stored with the
  confidence 0.801, because its product with 1000 is the double 800.5.
\<close>

theorem threshold_policy_witness:
  "analyzeReviews toLowerCase
     (constLoader (constPipe
        [\<lparr>label = Some (jsstr ''Negative''),
           score = Some (Finite (2476979795053773 / 4503599627370496))\<rparr>]))
     None [jsstr ''Bad''] =
     (Inr [\<lparr>originalReview = jsstr ''Bad'', cleanedText = jsstr ''bad'', sentiment = Neutral,
             confidence = Finite (2476979795053773 / 4503599627370496)\<rparr>],
      Some (constPipe
        [\<lparr>label = Some (jsstr ''Negative''),
           score = Some (Finite (2476979795053773 / 4503599627370496))\<rparr>])) \<and>
   analyzeReviews toLowerCase
     (constLoader (constPipe
        [\<lparr>label = Some (jsstr ''Positive''),
           score = Some (Finite (8286623314361713 / 9007199254740992))\<rparr>]))
     None [jsstr ''Bad''] =
     (Inr [\<lparr>originalReview = jsstr ''Bad'', cleanedText = jsstr ''bad'', sentiment = Positive,
             confidence = Finite (8286623314361713 / 9007199254740992)\<rparr>],
      Some (constPipe
        [\<lparr>label = Some (jsstr ''Positive''),
           score = Some (Finite (8286623314361713 / 9007199254740992))\<rparr>])) \<and>
   analyzeReviews toLowerCase
     (constLoader (constPipe
        [\<lparr>label = Some (jsstr ''Negative''),
           score = Some (Finite (1802565750855041 / 2251799813685248))\<rparr>]))
     None [jsstr ''Bad''] =
     (Inr [\<lparr>originalReview = jsstr ''Bad'', cleanedText = jsstr ''bad'', sentiment = Negative,
             confidence = Finite (7214766603047535 / 9007199254740992)\<rparr>],
      Some (constPipe
        [\<lparr>label = Some (jsstr ''Negative''),
           score = Some (Finite (1802565750855041 / 2251799813685248))\<rparr>])) \<and>
   (\<exists>n::int. of_int n \<le> (550 :: rat) + 1 / 2 \<and> (550 :: rat) + 1 / 2 < of_int n + 1 \<and>
      Finite (2476979795053773 / 4503599627370496) = roundToDouble (of_int n / 1000)) \<and>
   roundToDouble (55 / 100) = Finite (2476979795053773 / 4503599627370496) \<and>
   roundToDouble (92 / 100) = Finite (8286623314361713 / 9007199254740992) \<and>
   roundToDouble (8005 / 10000) = Finite (1802565750855041 / 2251799813685248) \<and>
   roundToDouble (801 / 1000) = Finite (7214766603047535 / 9007199254740992)"
proof -
  let ?neg = "[\<lparr>label = Some (jsstr ''Negative''),
           score = Some (Finite (2476979795053773 / 4503599627370496))\<rparr>]"
  let ?pos = "[\<lparr>label = Some (jsstr ''Positive''),
           score = Some (Finite (8286623314361713 / 9007199254740992))\<rparr>]"
  let ?hi = "[\<lparr>label = Some (jsstr ''Negative''),
           score = Some (Finite (1802565750855041 / 2251799813685248))\<rparr>]"
  let ?r = "\<lparr>originalReview = jsstr ''Bad'', cleanedText = jsstr ''bad'', sentiment = Neutral,
             confidence = Finite (2476979795053773 / 4503599627370496)\<rparr>"
  have rec_neg: "toRecord toLowerCase (jsstr ''Bad'') (jsstr ''bad'') ?neg = ?r"
    unfolding toRecord_def Let_def mapLabel_Negative scoreOf_Some round3_055
    by (simp add: numLess_def NEUTRAL_SCORE_THRESHOLD_def)
  have rec_pos: "toRecord toLowerCase (jsstr ''Bad'') (jsstr ''bad'') ?pos =
      \<lparr>originalReview = jsstr ''Bad'', cleanedText = jsstr ''bad'', sentiment = Positive,
             confidence = Finite (8286623314361713 / 9007199254740992)\<rparr>"
    unfolding toRecord_def Let_def mapLabel_Positive scoreOf_Some round3_092
    by (simp add: numLess_def NEUTRAL_SCORE_THRESHOLD_def)
  have rec_hi: "toRecord toLowerCase (jsstr ''Bad'') (jsstr ''bad'') ?hi =
      \<lparr>originalReview = jsstr ''Bad'', cleanedText = jsstr ''bad'', sentiment = Negative,
             confidence = Finite (7214766603047535 / 9007199254740992)\<rparr>"
    unfolding toRecord_def Let_def mapLabel_Negative scoreOf_Some round3_08005
    by (simp add: numLess_def NEUTRAL_SCORE_THRESHOLD_def)
  have neg: "analyzeReviews toLowerCase (constLoader (constPipe ?neg)) None [jsstr ''Bad''] =
      (Inr [?r], Some (constPipe ?neg))"
    unfolding rec_neg[symmetric] by (rule analyzeReviews_one) (simp add: constPipe_def)
  have pos: "analyzeReviews toLowerCase (constLoader (constPipe ?pos)) None [jsstr ''Bad''] =
      (Inr [\<lparr>originalReview = jsstr ''Bad'', cleanedText = jsstr ''bad'', sentiment = Positive,
             confidence = Finite (8286623314361713 / 9007199254740992)\<rparr>],
       Some (constPipe ?pos))"
    unfolding rec_pos[symmetric] by (rule analyzeReviews_one) (simp add: constPipe_def)
  have hi: "analyzeReviews toLowerCase (constLoader (constPipe ?hi)) None [jsstr ''Bad''] =
      (Inr [\<lparr>originalReview = jsstr ''Bad'', cleanedText = jsstr ''bad'', sentiment = Negative,
             confidence = Finite (7214766603047535 / 9007199254740992)\<rparr>],
       Some (constPipe ?hi))"
    unfolding rec_hi[symmetric] by (rule analyzeReviews_one) (simp add: constPipe_def)
  have e1: "exponentOf (2476979795053773 / 4503599627370496 * 1000) = 9"
    by (simp add: exponentOf_def upExp.simps pow2_simps)
  have t: "roundToDouble (2476979795053773 / 4503599627370496 * 1000) = Finite 550"
    using roundToDouble_pos[OF _ e1, of 4837851162214400] by (simp add: pow2_simps)
  have "?r \<in> set [?r]" by simp
  from threshold_policy[OF neg this] obtain pipe k result where
    i: "initPipeline (constLoader (constPipe ?neg)) None = (Inr pipe, Some (constPipe ?neg))" and
    p: "pipe k (slice (cleanedText ?r) 0 512) = Inr result" and
    rd: "\<forall>q p. scoreOf result = Finite q \<and> roundToDouble (q * 1000) = Finite p \<longrightarrow>
              (\<exists>n::int. of_int n \<le> p + 1 / 2 \<and> p + 1 / 2 < of_int n + 1 \<and>
                 confidence ?r = roundToDouble (of_int n / 1000))"
    by blast
  from i have "pipe = constPipe ?neg" by (simp add: initPipeline_constLoader)
  with p have "result = ?neg" by (simp add: constPipe_def)
  then have "scoreOf result = Finite (2476979795053773 / 4503599627370496)"
    by (simp only: scoreOf_Some)
  with rd t have "\<exists>n::int. of_int n \<le> (550 :: rat) + 1 / 2 \<and> (550 :: rat) + 1 / 2 < of_int n + 1 \<and>
      confidence ?r = roundToDouble (of_int n / 1000)" by blast
  then have "\<exists>n::int. of_int n \<le> (550 :: rat) + 1 / 2 \<and> (550 :: rat) + 1 / 2 < of_int n + 1 \<and>
      Finite (2476979795053773 / 4503599627370496) = roundToDouble (of_int n / 1000)"
    by simp
  with neg pos hi double_literals show ?thesis by (intro conjI)
qed

section \<open>Properties of the analyze handler\<close>

lemma analyzeHandler_found:
  assumes "errors parsed = []"
    and "find (\<lambda>h. lc h = jsstr ''review'') (headersOf parsed) = Some col"
  shows "analyzeHandler lc pipeline mem (Some parsed) =
     (let reviews = map the (filter nonBlank (map (\<lambda>r. map_of r col) (data parsed)))
      in if length reviews = 0 then
           (Response 400 (ErrorBody (jsstr ''No valid reviews found in CSV'')), mem)
         else
           (case analyzeReviews lc pipeline mem reviews of
              (Inl error, m) \<Rightarrow>
                (Response 500 (Failure (jsstr ''Failed to analyze reviews'') (message error)), m)
            | (Inr results, m) \<Rightarrow> (Response 200 (AnalyzeOk (length reviews) results), m)))"
  using assms by (simp add: analyzeHandler_def Let_def)

lemma analyzeHandler_missing:
  assumes "errors parsed = []"
    and "find (\<lambda>h. lc h = jsstr ''review'') (headersOf parsed) = None"
  shows "analyzeHandler lc pipeline mem (Some parsed) =
     (Response 400 (MissingColumn missingColumnMessage (headersOf parsed)), mem)"
  using assms by (simp add: analyzeHandler_def Let_def)

lemma analyzeHandler_errors:
  assumes "errors parsed \<noteq> []"
  shows "analyzeHandler lc pipeline mem (Some parsed) =
     (Response 400 (ErrorDetails (jsstr ''Invalid CSV format'') (errors parsed)), mem)"
  using assms by (simp add: analyzeHandler_def)

lemma analyzeHandler_ok:
  assumes "analyzeHandler lc pipeline mem (Some parsed) = (Response st (AnalyzeOk tot results), mem')"
  shows "\<exists>col. find (\<lambda>h. lc h = jsstr ''review'') (headersOf parsed) = Some col \<and>
           st = 200 \<and>
           tot = length (filter nonBlank (map (\<lambda>r. map_of r col) (data parsed))) \<and>
           analyzeReviews lc pipeline mem
             (map the (filter nonBlank (map (\<lambda>r. map_of r col) (data parsed)))) =
             (Inr results, mem')"
proof (cases "errors parsed = []")
  case False
  with assms show ?thesis by (simp add: analyzeHandler_errors)
next
  case True
  show ?thesis
  proof (cases "find (\<lambda>h. lc h = jsstr ''review'') (headersOf parsed)")
    case None
    with assms True show ?thesis by (simp add: analyzeHandler_missing)
  next
    case (Some col)
    let ?reviews = "map the (filter nonBlank (map (\<lambda>r. map_of r col) (data parsed)))"
    show ?thesis
    proof (cases "analyzeReviews lc pipeline mem ?reviews")
      case (Pair outcome m)
      show ?thesis
      proof (cases outcome)
        case (Inl e)
        with assms True Some Pair show ?thesis
          by (simp add: analyzeHandler_found[OF True Some] Let_def split: if_splits)
      next
        case (Inr rs)
        with assms True Some Pair show ?thesis
          by (simp add: analyzeHandler_found[OF True Some] Let_def split: if_splits)
      qed
    qed
  qed
qed

lemma trim_Nil_iff: "trim s = [] \<longleftrightarrow> (\<forall>u\<in>set s. isWhiteSpace u)"
proof
  assume "trim s = []"
  then have d: "dropWhile isWhiteSpace (rev (dropWhile isWhiteSpace s)) = []"
    by (simp add: trim_def)
  show "\<forall>u\<in>set s. isWhiteSpace u"
  proof (cases "dropWhile isWhiteSpace s = []")
    case True
    then show ?thesis by (simp add: dropWhile_eq_Nil_conv)
  next
    case False
    from hd_dropWhile[OF False] have "\<not> isWhiteSpace (hd (dropWhile isWhiteSpace s))" .
    moreover have "hd (dropWhile isWhiteSpace s) \<in> set (rev (dropWhile isWhiteSpace s))"
      using False by simp
    ultimately have "dropWhile isWhiteSpace (rev (dropWhile isWhiteSpace s)) \<noteq> []"
      by (metis dropWhile_eq_Nil_conv)
    with d show ?thesis by simp
  qed
next
  assume "\<forall>u\<in>set s. isWhiteSpace u"
  then have "dropWhile isWhiteSpace s = []" by (simp only: dropWhile_eq_Nil_conv)
  then show "trim s = []" unfolding trim_def by (simp only: rev.simps dropWhile.simps)
qed

lemma nonBlank_iff: "nonBlank c \<longleftrightarrow> (\<exists>s. c = Some s \<and> (\<exists>u\<in>set s. \<not> isWhiteSpace u))"
proof (cases c)
  case None
  then show ?thesis by (simp add: nonBlank_def)
next
  case (Some s)
  have "s \<noteq> [] \<and> trim s \<noteq> [] \<longleftrightarrow> (\<exists>u\<in>set s. \<not> isWhiteSpace u)"
    using trim_Nil_iff[of s] by auto
  with Some show ?thesis by (simp add: nonBlank_def)
qed

lemma nonBlank_cells: "map Some (map the (filter nonBlank cells)) = filter nonBlank cells"
  by (induction cells) (auto simp: nonBlank_def split: option.splits)

lemma subseq_length: "subseq xs ys \<Longrightarrow> length xs \<le> length ys"
  by (induction rule: list_emb.induct) simp_all

text \<open>
  Claim C8. In a successful response of \<^verbatim>\<open>/api/analyze\<close>, \<open>totalReviews\<close> is the number of
  rows whose review cell is present and holds a code unit that is not white space. The
  reviews of the records are, in the order of the rows, a subsequence of the cells of those
  rows whose normalized text is not empty: there are at most \<open>totalReviews\<close> records, and
  a row whose cell is blank or normalizes to the empty text has none. Every record carries
  the normalized text of its review. Where no classifier call throws, the records are
  exactly those rows.
\<close>

theorem analyze_skips_blank_rows:
  assumes "analyzeHandler lc pipeline mem (Some parsed) = (Response st (AnalyzeOk tot results), mem')"
  shows "\<exists>col pipe.
           find (\<lambda>h. lc h = jsstr ''review'') (headersOf parsed) = Some col \<and>
           initPipeline pipeline mem = (Inr pipe, mem') \<and>
           tot = length (filter (\<lambda>c. \<exists>s. c = Some s \<and> (\<exists>u\<in>set s. \<not> isWhiteSpace u))
                    (map (\<lambda>r. map_of r col) (data parsed))) \<and>
           length results \<le> tot \<and>
           subseq (map (\<lambda>r. Some (originalReview r)) results)
             (filter (\<lambda>c. \<exists>s. c = Some s \<and> (\<exists>u\<in>set s. \<not> isWhiteSpace u) \<and>
                        preprocessTextWith lc s \<noteq> [])
                (map (\<lambda>r. map_of r col) (data parsed))) \<and>
           (\<forall>r\<in>set results.
              cleanedText r = preprocessTextWith lc (originalReview r) \<and> cleanedText r \<noteq> []) \<and>
           ((\<forall>k t. \<exists>res. pipe k t = Inr res) \<longrightarrow>
              map (\<lambda>r. Some (originalReview r)) results =
                filter (\<lambda>c. \<exists>s. c = Some s \<and> (\<exists>u\<in>set s. \<not> isWhiteSpace u) \<and>
                          preprocessTextWith lc s \<noteq> [])
                  (map (\<lambda>r. map_of r col) (data parsed)))"
proof -
  from analyzeHandler_ok[OF assms] obtain col where
    col: "find (\<lambda>h. lc h = jsstr ''review'') (headersOf parsed) = Some col" and
    tot: "tot = length (filter nonBlank (map (\<lambda>r. map_of r col) (data parsed)))" and
    an: "analyzeReviews lc pipeline mem
             (map the (filter nonBlank (map (\<lambda>r. map_of r col) (data parsed)))) =
             (Inr results, mem')"
    by blast
  let ?cells = "map (\<lambda>r. map_of r col) (data parsed)"
  let ?reviews = "map the (filter nonBlank ?cells)"
  let ?P = "\<lambda>c. \<exists>s. c = Some s \<and> (\<exists>u\<in>set s. \<not> isWhiteSpace u)"
  let ?Q = "\<lambda>c. \<exists>s. c = Some s \<and> (\<exists>u\<in>set s. \<not> isWhiteSpace u) \<and> preprocessTextWith lc s \<noteq> []"
  have P: "nonBlank = ?P" by (rule ext) (rule nonBlank_iff)
  from analyzeReviews_Inr[OF an] obtain pipe where
    init: "initPipeline pipeline mem = (Inr pipe, mem')" and
    res: "results = analyzeLoop lc pipe 0 ?reviews []" by blast
  have tot': "tot = length (filter ?P ?cells)" unfolding tot P ..
  have kept: "map Some (filter (\<lambda>s. preprocessTextWith lc s \<noteq> []) ?reviews) = filter ?Q ?cells"
  proof -
    have "map Some (filter (\<lambda>s. preprocessTextWith lc s \<noteq> []) ?reviews) =
        filter (\<lambda>c. preprocessTextWith lc (the c) \<noteq> []) (map Some ?reviews)"
      by (simp add: filter_map comp_def)
    also have "\<dots> = filter (\<lambda>c. preprocessTextWith lc (the c) \<noteq> []) (filter nonBlank ?cells)"
      by (simp only: nonBlank_cells)
    also have "\<dots> = filter ?Q ?cells"
      unfolding filter_filter by (rule filter_cong) (auto simp: nonBlank_iff)
    finally show ?thesis .
  qed
  have "subseq (map originalReview results) (filter (\<lambda>s. preprocessTextWith lc s \<noteq> []) ?reviews)"
    unfolding res by (rule analyzeLoop_subseq)
  then have "subseq (map Some (map originalReview results))
      (map Some (filter (\<lambda>s. preprocessTextWith lc s \<noteq> []) ?reviews))"
    by (rule subseq_map)
  then have sub: "subseq (map (\<lambda>r. Some (originalReview r)) results) (filter ?Q ?cells)"
    unfolding kept by (simp only: map_map comp_def)
  have "length (filter ?Q ?cells) \<le> length (filter ?P ?cells)"
  proof -
    have "filter ?Q ?cells = filter (\<lambda>c. preprocessTextWith lc (the c) \<noteq> []) (filter ?P ?cells)"
      unfolding filter_filter by (rule filter_cong) auto
    then show ?thesis by (simp only: length_filter_le)
  qed
  with subseq_length[OF sub] have len: "length results \<le> tot" unfolding tot' by simp
  have each: "\<forall>r\<in>set results.
      cleanedText r = preprocessTextWith lc (originalReview r) \<and> cleanedText r \<noteq> []"
  proof
    fix r assume "r \<in> set results"
    with res analyzeLoop_mem[of r lc pipe 0 ?reviews] obtain review j result where
      "preprocessTextWith lc review \<noteq> []"
      "r = toRecord lc review (preprocessTextWith lc review) result" by blast
    then show "cleanedText r = preprocessTextWith lc (originalReview r) \<and> cleanedText r \<noteq> []"
      by (simp add: toRecord_simps)
  qed
  have full: "map (\<lambda>r. Some (originalReview r)) results = filter ?Q ?cells"
    if "\<forall>k t. \<exists>res. pipe k t = Inr res"
  proof -
    from analyzeLoop_complete[OF that, of lc 0 ?reviews]
    have "map Some (map originalReview results) =
        map Some (filter (\<lambda>s. preprocessTextWith lc s \<noteq> []) ?reviews)"
      unfolding res by simp
    then show ?thesis unfolding kept by (simp only: map_map comp_def)
  qed
  from col init tot' len sub each full show ?thesis by blast
qed

lemma toLowerCase_examples:
  "toLowerCase (jsstr ''review'') = jsstr ''review''"
  "toLowerCase (jsstr ''Review'') = jsstr ''review''"
  "toLowerCase (jsstr ''REVIEW'') = jsstr ''review''"
  "toLowerCase (jsstr ''Reviews'') \<noteq> jsstr ''review''"
  "toLowerCase (jsstr ''id'') \<noteq> jsstr ''review''"
  by (simp_all add: toLowerCase_def lowerUnit_def jsstr_def)

lemma jsstr_id_neq:
  "jsstr ''review'' \<noteq> jsstr ''id''" "jsstr ''Review'' \<noteq> jsstr ''id''"
  "jsstr ''Reviews'' \<noteq> jsstr ''id''"
  by (simp_all add: jsstr_def)

lemma exampleFile_simps:
  "errors (exampleFile h) = []"
  "headersOf (exampleFile h) = [jsstr ''id'', h]"
  "h \<noteq> jsstr ''id'' \<Longrightarrow>
     map (\<lambda>r. map_of r h) (data (exampleFile h)) =
       [Some (jsstr ''Good''), Some (jsstr ''!!!''), Some (jsstr ''   ''), Some [],
        Some (jsstr ''Good'')]"
  by (simp_all add: exampleFile_def headersOf_def)

lemma preprocessText_Good: "preprocessTextWith toLowerCase (jsstr ''Good'') = jsstr ''good''"
  by (simp add: jsstr_def norm_defs)

lemma preprocessText_marks: "preprocessTextWith toLowerCase (jsstr ''!!!'') = []"
  by (simp add: jsstr_def norm_defs)

lemma nonBlank_examples:
  "nonBlank (Some (jsstr ''Good''))" "nonBlank (Some (jsstr ''!!!''))"
  "\<not> nonBlank (Some (jsstr ''   ''))" "\<not> nonBlank (Some [])"
  by (simp_all add: nonBlank_def trim_def isWhiteSpace_def jsstr_def)

lemma jsstr_good: "jsstr ''good'' \<noteq> []"
  by (simp add: jsstr_def)

lemma analyzeLoop_example:
  "analyzeLoop toLowerCase (pipeFailAt 1 e result) 0
     [jsstr ''Good'', jsstr ''!!!'', jsstr ''Good''] [] =
   [toRecord toLowerCase (jsstr ''Good'') (jsstr ''good'') result]"
  by (simp add: analyzeLoop_Cons preprocessText_Good preprocessText_marks jsstr_good
      pipeFailAt_def del: analyzeLoop.simps(2))

lemma toRecord_positive_092:
  "toRecord toLowerCase (jsstr ''Good'') (jsstr ''good'')
     [\<lparr>label = Some (jsstr ''Positive''),
        score = Some (Finite (8286623314361713 / 9007199254740992))\<rparr>] =
   \<lparr>originalReview = jsstr ''Good'', cleanedText = jsstr ''good'', sentiment = Positive,
      confidence = Finite (8286623314361713 / 9007199254740992)\<rparr>"
  unfolding toRecord_def Let_def mapLabel_Positive scoreOf_Some round3_092
  by (simp add: numLess_def NEUTRAL_SCORE_THRESHOLD_def)

lemma analyzeHandler_example:
  assumes "h \<noteq> jsstr ''id''"
  shows "analyzeHandler toLowerCase
     (constLoader (pipeFailAt 1 (Error (jsstr ''busy''))
        [\<lparr>label = Some (jsstr ''Positive''),
           score = Some (Finite (8286623314361713 / 9007199254740992))\<rparr>]))
     None (Some (exampleFile h)) =
   (if toLowerCase h = jsstr ''review'' then
      (Response 200
         (AnalyzeOk 3
            [\<lparr>originalReview = jsstr ''Good'', cleanedText = jsstr ''good'',
               sentiment = Positive,
               confidence = Finite (8286623314361713 / 9007199254740992)\<rparr>]),
       Some (pipeFailAt 1 (Error (jsstr ''busy''))
        [\<lparr>label = Some (jsstr ''Positive''),
           score = Some (Finite (8286623314361713 / 9007199254740992))\<rparr>]))
    else
      (Response 400
         (MissingColumn
            (jsstr ''CSV must contain a '' @ [0x22] @ jsstr ''review'' @ [0x22]
               @ jsstr '' column (case-insensitive)'')
            [jsstr ''id'', h]),
       None))"
proof (cases "toLowerCase h = jsstr ''review''")
  case False
  then have "find (\<lambda>h. toLowerCase h = jsstr ''review'') (headersOf (exampleFile h)) = None"
    by (simp add: exampleFile_simps toLowerCase_examples)
  from analyzeHandler_missing[OF exampleFile_simps(1) this] False
  show ?thesis by (simp add: exampleFile_simps missingColumnMessage_def)
next
  case True
  let ?P = "pipeFailAt 1 (Error (jsstr ''busy''))
        [\<lparr>label = Some (jsstr ''Positive''),
           score = Some (Finite (8286623314361713 / 9007199254740992))\<rparr>]"
  have f: "find (\<lambda>h. toLowerCase h = jsstr ''review'') (headersOf (exampleFile h)) = Some h"
    using True by (simp add: exampleFile_simps toLowerCase_examples)
  have r: "map the (filter nonBlank (map (\<lambda>r. map_of r h) (data (exampleFile h)))) =
      [jsstr ''Good'', jsstr ''!!!'', jsstr ''Good'']"
    unfolding exampleFile_simps(3)[OF assms] by (simp add: nonBlank_examples)
  have a: "analyzeReviews toLowerCase (constLoader ?P) None
        [jsstr ''Good'', jsstr ''!!!'', jsstr ''Good''] =
      (Inr [\<lparr>originalReview = jsstr ''Good'', cleanedText = jsstr ''good'',
               sentiment = Positive,
               confidence = Finite (8286623314361713 / 9007199254740992)\<rparr>], Some ?P)"
    by (simp only: analyzeReviews_def initPipeline_constLoader prod.case sum.case
        analyzeLoop_example toRecord_positive_092)
  show ?thesis
    unfolding analyzeHandler_found[OF exampleFile_simps(1) f] r Let_def a using True by simp
qed

text \<open>
  The file with the cells "Good", "!!!", three spaces, the empty cell and "Good" under the
  header "review", and a classifier whose second call throws. Three rows are counted: the
  cell of three spaces and the empty cell are not. "!!!" normalizes to the empty text and
  gets no record; the last row is dropped by the \<^verbatim>\<open>catch\<close>; one record is returned.
\<close>

theorem analyze_skips_blank_rows_witness:
  "analyzeHandler toLowerCase
     (constLoader (pipeFailAt 1 (Error (jsstr ''busy''))
        [\<lparr>label = Some (jsstr ''Positive''),
           score = Some (Finite (8286623314361713 / 9007199254740992))\<rparr>]))
     None (Some (exampleFile (jsstr ''review''))) =
   (Response 200
      (AnalyzeOk 3
         [\<lparr>originalReview = jsstr ''Good'', cleanedText = jsstr ''good'',
            sentiment = Positive,
            confidence = Finite (8286623314361713 / 9007199254740992)\<rparr>]),
    Some (pipeFailAt 1 (Error (jsstr ''busy''))
        [\<lparr>label = Some (jsstr ''Positive''),
           score = Some (Finite (8286623314361713 / 9007199254740992))\<rparr>])) \<and>
   map (\<lambda>r. map_of r (jsstr ''review'')) (data (exampleFile (jsstr ''review''))) =
     [Some (jsstr ''Good''), Some (jsstr ''!!!''), Some (jsstr ''   ''), Some [],
      Some (jsstr ''Good'')] \<and>
   (\<exists>col.
      find (\<lambda>h. toLowerCase h = jsstr ''review'')
        (headersOf (exampleFile (jsstr ''review''))) = Some col \<and>
      3 = length (filter (\<lambda>c. \<exists>s. c = Some s \<and> (\<exists>u\<in>set s. \<not> isWhiteSpace u))
                (map (\<lambda>r. map_of r col) (data (exampleFile (jsstr ''review''))))) \<and>
      subseq [Some (jsstr ''Good'')]
        (filter (\<lambda>c. \<exists>s. c = Some s \<and> (\<exists>u\<in>set s. \<not> isWhiteSpace u) \<and>
                   preprocessTextWith toLowerCase s \<noteq> [])
           (map (\<lambda>r. map_of r col) (data (exampleFile (jsstr ''review'')))))) \<and>
   preprocessTextWith toLowerCase (jsstr ''!!!'') = []"
proof -
  let ?L = "constLoader (pipeFailAt 1 (Error (jsstr ''busy''))
        [\<lparr>label = Some (jsstr ''Positive''),
           score = Some (Finite (8286623314361713 / 9007199254740992))\<rparr>])"
  let ?rec = "\<lparr>originalReview = jsstr ''Good'', cleanedText = jsstr ''good'',
            sentiment = Positive,
            confidence = Finite (8286623314361713 / 9007199254740992)\<rparr>"
  have run: "analyzeHandler toLowerCase ?L None (Some (exampleFile (jsstr ''review''))) =
   (Response 200 (AnalyzeOk 3 [?rec]),
    Some (pipeFailAt 1 (Error (jsstr ''busy''))
        [\<lparr>label = Some (jsstr ''Positive''),
           score = Some (Finite (8286623314361713 / 9007199254740992))\<rparr>]))"
    unfolding analyzeHandler_example[OF jsstr_id_neq(1)]
    by (simp only: toLowerCase_examples simp_thms if_True)
  from analyze_skips_blank_rows[OF run] obtain col where
    1: "find (\<lambda>h. toLowerCase h = jsstr ''review'')
        (headersOf (exampleFile (jsstr ''review''))) = Some col" and
    2: "3 = length (filter (\<lambda>c. \<exists>s. c = Some s \<and> (\<exists>u\<in>set s. \<not> isWhiteSpace u))
                (map (\<lambda>r. map_of r col) (data (exampleFile (jsstr ''review'')))))" and
    3: "subseq (map (\<lambda>r. Some (originalReview r)) [?rec])
        (filter (\<lambda>c. \<exists>s. c = Some s \<and> (\<exists>u\<in>set s. \<not> isWhiteSpace u) \<and>
                   preprocessTextWith toLowerCase s \<noteq> [])
           (map (\<lambda>r. map_of r col) (data (exampleFile (jsstr ''review'')))))"
    by blast
  from 3 have 4: "subseq [Some (jsstr ''Good'')]
        (filter (\<lambda>c. \<exists>s. c = Some s \<and> (\<exists>u\<in>set s. \<not> isWhiteSpace u) \<and>
                   preprocessTextWith toLowerCase s \<noteq> [])
           (map (\<lambda>r. map_of r col) (data (exampleFile (jsstr ''review'')))))"
    by simp
  from run exampleFile_simps(3)[OF jsstr_id_neq(1)] 1 2 4 preprocessText_marks
  show ?thesis by blast
qed

text \<open>
  Claim C2, as stated, fails: the same rows are analyzed under the headers "id" and
  "review", and rejected with the 400 response for a missing column under the headers "id"
  and "Reviews".
\<close>

theorem reviews_header_rejected:
  "analyzeHandler toLowerCase
     (constLoader (pipeFailAt 1 (Error (jsstr ''busy''))
        [\<lparr>label = Some (jsstr ''Positive''),
           score = Some (Finite (8286623314361713 / 9007199254740992))\<rparr>]))
     None (Some (exampleFile (jsstr ''Reviews''))) =
     (Response 400
        (MissingColumn
           (jsstr ''CSV must contain a '' @ [0x22] @ jsstr ''review'' @ [0x22]
              @ jsstr '' column (case-insensitive)'')
           [jsstr ''id'', jsstr ''Reviews'']),
      None) \<and>
   analyzeHandler toLowerCase
     (constLoader (pipeFailAt 1 (Error (jsstr ''busy''))
        [\<lparr>label = Some (jsstr ''Positive''),
           score = Some (Finite (8286623314361713 / 9007199254740992))\<rparr>]))
     None (Some (exampleFile (jsstr ''review''))) =
     (Response 200
        (AnalyzeOk 3
           [\<lparr>originalReview = jsstr ''Good'', cleanedText = jsstr ''good'',
              sentiment = Positive,
              confidence = Finite (8286623314361713 / 9007199254740992)\<rparr>]),
      Some (pipeFailAt 1 (Error (jsstr ''busy''))
        [\<lparr>label = Some (jsstr ''Positive''),
           score = Some (Finite (8286623314361713 / 9007199254740992))\<rparr>]))"
  unfolding analyzeHandler_example[OF jsstr_id_neq(1)] analyzeHandler_example[OF jsstr_id_neq(3)]
  by (simp only: toLowerCase_examples simp_thms if_True if_False)

text \<open>
  Claim C2, amended. A file for which the parser reports an error gets the 400 response
  "Invalid CSV format", whatever its headers. A file parsed without error gets the 400
  response for a missing column, with the message and the keys of its first data row as
  the available columns, exactly when no key of its first data row is "review" after
  lower-casing; a file without a data row has no key. "Review" and "REVIEW" lower-case to
  "review"; "Reviews" does not.
\<close>

theorem review_column_match:
  "(errors parsed \<noteq> [] \<longrightarrow>
      analyzeHandler lc pipeline mem (Some parsed) =
        (Response 400 (ErrorDetails (jsstr ''Invalid CSV format'') (errors parsed)), mem)) \<and>
   (errors parsed = [] \<and>
    (\<exists>h\<in>set (case data parsed of [] \<Rightarrow> [] | row0 # _ \<Rightarrow> map fst row0). lc h = jsstr ''review'')
      \<longrightarrow> (\<forall>msg cols. fst (analyzeHandler lc pipeline mem (Some parsed)) \<noteq>
               Response 400 (MissingColumn msg cols))) \<and>
   (errors parsed = [] \<and>
    \<not> (\<exists>h\<in>set (case data parsed of [] \<Rightarrow> [] | row0 # _ \<Rightarrow> map fst row0). lc h = jsstr ''review'')
      \<longrightarrow> analyzeHandler lc pipeline mem (Some parsed) =
            (Response 400
               (MissingColumn
                  (jsstr ''CSV must contain a '' @ [0x22] @ jsstr ''review'' @ [0x22]
                     @ jsstr '' column (case-insensitive)'')
                  (case data parsed of [] \<Rightarrow> [] | row0 # _ \<Rightarrow> map fst row0)),
             mem)) \<and>
   toLowerCase (jsstr ''Review'') = jsstr ''review'' \<and>
   toLowerCase (jsstr ''REVIEW'') = jsstr ''review'' \<and>
   toLowerCase (jsstr ''Reviews'') \<noteq> jsstr ''review''"
proof -
  have found: "\<forall>msg cols. fst (analyzeHandler lc pipeline mem (Some parsed)) \<noteq>
      Response 400 (MissingColumn msg cols)"
    if e: "errors parsed = []" and "\<exists>h\<in>set (headersOf parsed). lc h = jsstr ''review''"
  proof -
    from that(2) obtain col where
      "find (\<lambda>h. lc h = jsstr ''review'') (headersOf parsed) = Some col"
      by (cases "find (\<lambda>h. lc h = jsstr ''review'') (headersOf parsed)")
         (auto simp: find_None_iff)
    from analyzeHandler_found[OF e this, of pipeline mem] show ?thesis
      by (auto simp: Let_def split: prod.splits sum.splits)
  qed
  have missing: "analyzeHandler lc pipeline mem (Some parsed) =
      (Response 400 (MissingColumn missingColumnMessage (headersOf parsed)), mem)"
    if e: "errors parsed = []" and "\<not> (\<exists>h\<in>set (headersOf parsed). lc h = jsstr ''review'')"
  proof -
    from that(2) have "find (\<lambda>h. lc h = jsstr ''review'') (headersOf parsed) = None"
      by (simp add: find_None_iff)
    from analyzeHandler_missing[OF e this] show ?thesis .
  qed
  show ?thesis
  proof (intro conjI impI)
    assume "errors parsed \<noteq> []"
    then show "analyzeHandler lc pipeline mem (Some parsed) =
        (Response 400 (ErrorDetails (jsstr ''Invalid CSV format'') (errors parsed)), mem)"
      by (rule analyzeHandler_errors)
  next
    assume "errors parsed = [] \<and>
      (\<exists>h\<in>set (case data parsed of [] \<Rightarrow> [] | row0 # _ \<Rightarrow> map fst row0). lc h = jsstr ''review'')"
    then show "\<forall>msg cols. fst (analyzeHandler lc pipeline mem (Some parsed)) \<noteq>
               Response 400 (MissingColumn msg cols)"
      using found unfolding headersOf_def by blast
  next
    assume "errors parsed = [] \<and>
      \<not> (\<exists>h\<in>set (case data parsed of [] \<Rightarrow> [] | row0 # _ \<Rightarrow> map fst row0). lc h = jsstr ''review'')"
    then show "analyzeHandler lc pipeline mem (Some parsed) =
            (Response 400
               (MissingColumn
                  (jsstr ''CSV must contain a '' @ [0x22] @ jsstr ''review'' @ [0x22]
                     @ jsstr '' column (case-insensitive)'')
                  (case data parsed of [] \<Rightarrow> [] | row0 # _ \<Rightarrow> map fst row0)),
             mem)"
      using missing unfolding headersOf_def missingColumnMessage_def by blast
  qed (rule toLowerCase_examples)+
qed

text \<open>
  Under the headers "id" and "Review" the column is found and the rows are analyzed; under
  "id" and "Reviews" the file is rejected for a missing column, and so is the file of a
  header line alone; the one-column file with the header "review" is rejected as invalid.
\<close>

theorem review_column_match_witness:
  "analyzeHandler toLowerCase
     (constLoader (pipeFailAt 1 (Error (jsstr ''busy''))
        [\<lparr>label = Some (jsstr ''Positive''),
           score = Some (Finite (8286623314361713 / 9007199254740992))\<rparr>]))
     None (Some (exampleFile (jsstr ''Review''))) =
     (Response 200
        (AnalyzeOk 3
           [\<lparr>originalReview = jsstr ''Good'', cleanedText = jsstr ''good'',
              sentiment = Positive,
              confidence = Finite (8286623314361713 / 9007199254740992)\<rparr>]),
      Some (pipeFailAt 1 (Error (jsstr ''busy''))
        [\<lparr>label = Some (jsstr ''Positive''),
           score = Some (Finite (8286623314361713 / 9007199254740992))\<rparr>])) \<and>
   (\<exists>h\<in>set [jsstr ''id'', jsstr ''Review'']. toLowerCase h = jsstr ''review'') \<and>
   (\<forall>msg cols.
      fst (analyzeHandler toLowerCase
             (constLoader (pipeFailAt 1 (Error (jsstr ''busy''))
                [\<lparr>label = Some (jsstr ''Positive''),
                   score = Some (Finite (8286623314361713 / 9007199254740992))\<rparr>]))
             None (Some (exampleFile (jsstr ''Review'')))) \<noteq>
        Response 400 (MissingColumn msg cols)) \<and>
   analyzeHandler toLowerCase
     (constLoader (pipeFailAt 1 (Error (jsstr ''busy''))
        [\<lparr>label = Some (jsstr ''Positive''),
           score = Some (Finite (8286623314361713 / 9007199254740992))\<rparr>]))
     None (Some (exampleFile (jsstr ''Reviews''))) =
     (Response 400
        (MissingColumn
           (jsstr ''CSV must contain a '' @ [0x22] @ jsstr ''review'' @ [0x22]
              @ jsstr '' column (case-insensitive)'')
           [jsstr ''id'', jsstr ''Reviews'']),
      None) \<and>
   analyzeHandler toLowerCase
     (constLoader (pipeFailAt 1 (Error (jsstr ''busy''))
        [\<lparr>label = Some (jsstr ''Positive''),
           score = Some (Finite (8286623314361713 / 9007199254740992))\<rparr>]))
     None (Some headerOnlyFile) =
     (Response 400
        (MissingColumn
           (jsstr ''CSV must contain a '' @ [0x22] @ jsstr ''review'' @ [0x22]
              @ jsstr '' column (case-insensitive)'')
           []),
      None) \<and>
   analyzeHandler toLowerCase
     (constLoader (pipeFailAt 1 (Error (jsstr ''busy''))
        [\<lparr>label = Some (jsstr ''Positive''),
           score = Some (Finite (8286623314361713 / 9007199254740992))\<rparr>]))
     None (Some (oneColumnFile (jsstr ''review''))) =
     (Response 400
        (ErrorDetails (jsstr ''Invalid CSV format'') [jsstr ''UndetectableDelimiter'']),
      None)"
proof -
  let ?L = "constLoader (pipeFailAt 1 (Error (jsstr ''busy''))
        [\<lparr>label = Some (jsstr ''Positive''),
           score = Some (Finite (8286623314361713 / 9007199254740992))\<rparr>])"
  have run: "analyzeHandler toLowerCase ?L None (Some (exampleFile (jsstr ''Review''))) =
     (Response 200
        (AnalyzeOk 3
           [\<lparr>originalReview = jsstr ''Good'', cleanedText = jsstr ''good'',
              sentiment = Positive,
              confidence = Finite (8286623314361713 / 9007199254740992)\<rparr>]),
      Some (pipeFailAt 1 (Error (jsstr ''busy''))
        [\<lparr>label = Some (jsstr ''Positive''),
           score = Some (Finite (8286623314361713 / 9007199254740992))\<rparr>]))"
    unfolding analyzeHandler_example[OF jsstr_id_neq(2)]
    by (simp only: toLowerCase_examples simp_thms if_True)
  have ex: "\<exists>h\<in>set [jsstr ''id'', jsstr ''Review'']. toLowerCase h = jsstr ''review''"
    by (simp add: toLowerCase_examples)
  have keys: "(case data (exampleFile h) of [] \<Rightarrow> [] | row0 # _ \<Rightarrow> map fst row0) =
      [jsstr ''id'', h]" for h
    by (simp add: exampleFile_def)
  have nex: "\<not> (\<exists>h\<in>set [jsstr ''id'', jsstr ''Reviews'']. toLowerCase h = jsstr ''review'')"
    by (simp add: toLowerCase_examples)
  from review_column_match[of "exampleFile (jsstr ''Review'')" toLowerCase ?L None] ex
  have found: "\<forall>msg cols.
      fst (analyzeHandler toLowerCase ?L None (Some (exampleFile (jsstr ''Review'')))) \<noteq>
        Response 400 (MissingColumn msg cols)"
    unfolding keys exampleFile_simps(1) by blast
  from review_column_match[of "exampleFile (jsstr ''Reviews'')" toLowerCase ?L None] nex
  have missing: "analyzeHandler toLowerCase ?L None (Some (exampleFile (jsstr ''Reviews''))) =
     (Response 400
        (MissingColumn
           (jsstr ''CSV must contain a '' @ [0x22] @ jsstr ''review'' @ [0x22]
              @ jsstr '' column (case-insensitive)'')
           [jsstr ''id'', jsstr ''Reviews'']),
      None)"
    unfolding keys exampleFile_simps(1) by blast
  from review_column_match[of headerOnlyFile toLowerCase ?L None]
  have empty: "analyzeHandler toLowerCase ?L None (Some headerOnlyFile) =
     (Response 400
        (MissingColumn
           (jsstr ''CSV must contain a '' @ [0x22] @ jsstr ''review'' @ [0x22]
              @ jsstr '' column (case-insensitive)'')
           []),
      None)"
    by (simp add: headerOnlyFile_def)
  from review_column_match[of "oneColumnFile (jsstr ''review'')" toLowerCase ?L None]
  have invalid: "analyzeHandler toLowerCase ?L None (Some (oneColumnFile (jsstr ''review''))) =
     (Response 400
        (ErrorDetails (jsstr ''Invalid CSV format'') [jsstr ''UndetectableDelimiter'']),
      None)"
    by (simp add: oneColumnFile_def)
  from run ex found missing empty invalid show ?thesis by (intro conjI)
qed

section \<open>Properties of chunkArray\<close>

lemma slice_chunk:
  "slice xs (int i) (int i + int k) = take k (drop i xs)"
  by (auto simp: slice_def Let_def min_def max_def)

lemma ceil_div_less: "0 < k \<Longrightarrow> j < (n + k - 1) div k \<longleftrightarrow> j * k < (n::nat)"
proof -
  assume k: "0 < k"
  have "j < (n + k - 1) div k \<longleftrightarrow> \<not> ((n + k - 1) div k < Suc j)" by auto
  also have "\<dots> \<longleftrightarrow> \<not> (n + k - 1 < Suc j * k)"
    using k by (simp only: div_less_iff_less_mult)
  also have "\<dots> \<longleftrightarrow> j * k < n" using k by auto
  finally show ?thesis .
qed

lemma chunkArrayLoop_done:
  "\<not> i < int (length array) \<Longrightarrow> chunkArrayLoop array sz i chunks = Some chunks"
  by (subst chunkArrayLoop.simps) simp

lemma chunkArrayLoop_step:
  "i < int (length array) \<Longrightarrow>
   chunkArrayLoop array sz i chunks =
     chunkArrayLoop array sz (i + sz) (chunks @ [slice array i (i + sz)])"
  by (subst chunkArrayLoop.simps) simp

lemma chunkArrayLoop_closed:
  assumes "0 < k"
  shows "chunkArrayLoop array (int k) (int (j * k)) chunks =
     Some (chunks @ map (\<lambda>m. take k (drop (m * k) array)) [j ..< (length array + k - 1) div k])"
proof (induction "(length array + k - 1) div k - j" arbitrary: j chunks)
  case 0
  then have "\<not> j < (length array + k - 1) div k" by simp
  then have "\<not> j * k < length array" using ceil_div_less[OF assms] by simp
  then have "\<not> int (j * k) < int (length array)" by (simp only: of_nat_less_iff not_False_eq_True)
  from chunkArrayLoop_done[OF this] 0 show ?case by simp
next
  case (Suc d)
  then have lt: "j < (length array + k - 1) div k" by simp
  then have "j * k < length array" using ceil_div_less[OF assms] by simp
  then have jk: "int (j * k) < int (length array)" by (simp only: of_nat_less_iff)
  have d: "d = (length array + k - 1) div k - Suc j" using Suc(2) by simp
  have next_i: "int (j * k) + int k = int (Suc j * k)" by simp
  have step: "chunkArrayLoop array (int k) (int (j * k)) chunks =
      chunkArrayLoop array (int k) (int (Suc j * k)) (chunks @ [take k (drop (j * k) array)])"
    unfolding chunkArrayLoop_step[OF jk] using slice_chunk[of array "j * k" k]
    by (simp only: next_i)
  show ?case
    unfolding step Suc(1)[OF d] using lt by (simp add: upt_conv_Cons)
qed

lemma chunkArray_closed:
  assumes "1 \<le> sz"
  shows "chunkArray array sz =
     Some (map (\<lambda>m. take (nat sz) (drop (m * nat sz) array))
             [0 ..< (length array + nat sz - 1) div nat sz])"
proof -
  from assms have k: "0 < nat sz" and sz: "sz = int (nat sz)" by simp_all
  show ?thesis
    unfolding chunkArray_def
    using chunkArrayLoop_closed[OF k, of array 0 "[]"] sz by simp
qed

lemma concat_chunks_from:
  assumes "0 < k"
  shows "j \<le> c \<Longrightarrow> length array \<le> c * k \<Longrightarrow>
    concat (map (\<lambda>m. take k (drop (m * k) array)) [j ..< c]) = drop (j * k) array"
proof (induction "c - j" arbitrary: j)
  case 0
  then have "j = c" by simp
  with 0 show ?case by simp
next
  case (Suc d)
  then have lt: "j < c" and d: "d = c - Suc j" and le: "Suc j \<le> c" by simp_all
  have "concat (map (\<lambda>m. take k (drop (m * k) array)) [j ..< c]) =
      take k (drop (j * k) array) @ drop k (drop (j * k) array)"
    using lt Suc(1)[OF d le Suc(4)] by (simp add: upt_conv_Cons add.commute)
  then show ?case by (simp only: append_take_drop_id)
qed

lemma chunkArrayLoop_diverges:
  assumes "sz \<le> 0" and "i < int (length array)"
  shows "chunkArrayLoop array sz i chunks = None"
proof (rule ccontr)
  assume "chunkArrayLoop array sz i chunks \<noteq> None"
  then obtain y where y: "chunkArrayLoop array sz i chunks = Some y" by blast
  have "\<not> (sz \<le> 0 \<and> i < int (length array))"
  proof (rule chunkArrayLoop.raw_induct[where
        P = "\<lambda>array sz i chunks y. \<not> (sz \<le> 0 \<and> i < int (length array))", OF _ y])
    fix f :: "'a list \<Rightarrow> int \<Rightarrow> int \<Rightarrow> 'a list list \<Rightarrow> 'a list list option"
      and array sz i chunks y
    assume ih: "\<And>array sz i chunks y. f array sz i chunks = Some y \<Longrightarrow>
        \<not> (sz \<le> 0 \<and> i < int (length array))"
      and eq: "(if i < int (length array)
            then f array sz (i + sz) (chunks @ [slice array i (i + sz)])
            else Some chunks) = Some y"
    show "\<not> (sz \<le> 0 \<and> i < int (length array))"
    proof
      assume a: "sz \<le> 0 \<and> i < int (length array)"
      with eq have "f array sz (i + sz) (chunks @ [slice array i (i + sz)]) = Some y" by simp
      from ih[OF this] a show False by simp
    qed
  qed
  with assms show False by simp
qed

lemma chunkArray_diverges: "sz \<le> 0 \<Longrightarrow> array \<noteq> [] \<Longrightarrow> chunkArray array sz = None"
  unfolding chunkArray_def by (rule chunkArrayLoop_diverges) simp_all

lemma chunkArray_returns:
  assumes "1 \<le> sz \<or> reviews = []"
  shows "\<exists>chunks. chunkArray reviews sz = Some chunks"
proof (cases "1 \<le> sz")
  case True
  from chunkArray_closed[OF this] show ?thesis by blast
next
  case False
  with assms have "reviews = []" by simp
  then have "chunkArray reviews sz = Some []"
    unfolding chunkArray_def by (simp add: chunkArrayLoop_done)
  then show ?thesis by blast
qed

section \<open>Properties of the recommendation service and its handler\<close>

lemma chunkLoop_done:
  "\<not> i < length chunks \<Longrightarrow> chunkLoop gen chunks i batchResults w = (batchResults, w)"
  by (subst chunkLoop.simps) simp

lemma chunkLoop_step:
  assumes "i < length chunks" and "i \<le> calls w"
  shows "chunkLoop gen chunks i batchResults w =
     chunkLoop gen chunks (Suc i) (batchResults @ [batchEntry gen chunks (calls w - i) i])
       (w\<lparr>calls := Suc (calls w), trace := trace w @ chunkEvents chunks i\<rparr>)"
proof -
  have s: "(int i < int (length chunks) - 1) = (Suc i < length chunks)" by auto
  show ?thesis
    using assms
    by (subst chunkLoop.simps)
       (simp add: generateContent_def sleep_def batchEntry_def chunkEvents_def s Let_def
          split: sum.split)
qed

lemma chunkLoop_closed:
  assumes "i \<le> length chunks" and "calls w = c0 + i"
  shows "chunkLoop gen chunks i batchResults w =
     (batchResults @ map (batchEntry gen chunks c0) [i ..< length chunks],
      w\<lparr>calls := c0 + length chunks,
        trace := trace w @ concat (map (chunkEvents chunks) [i ..< length chunks])\<rparr>)"
  using assms
proof (induction "length chunks - i" arbitrary: i batchResults w)
  case 0
  then have "\<not> i < length chunks" and "i = length chunks" by simp_all
  with chunkLoop_done[OF this(1)] 0 show ?case by simp
next
  case (Suc d)
  then have lt: "i < length chunks" and d: "d = length chunks - Suc i"
    and le: "Suc i \<le> length chunks" by simp_all
  let ?w = "w\<lparr>calls := Suc (calls w), trace := trace w @ chunkEvents chunks i\<rparr>"
  have c: "calls ?w = c0 + Suc i" using Suc(4) by simp
  have i: "i \<le> calls w" and c0: "calls w - i = c0" using Suc(4) by simp_all
  show ?case
    unfolding chunkLoop_step[OF lt i] c0 Suc(1)[OF d le c]
    using lt by (simp add: upt_conv_Cons)
qed

lemma analyzeAndRecommend_closed:
  assumes "apiKey = Some key" and "key \<noteq> []" and "chunkArray reviews sz = Some chunks"
  shows "analyzeAndRecommend apiKey gen reviews sz w =
     Some (Inr (case gen (calls w + length chunks)
                      (finalPrompt (map (batchEntry gen chunks (calls w)) [0 ..< length chunks])) of
                  Inr text \<Rightarrow> text
                | Inl error \<Rightarrow>
                    join divider (map (batchEntry gen chunks (calls w)) [0 ..< length chunks])),
           w\<lparr>calls := calls w + length chunks + 1,
             trace := trace w @ concat (map (chunkEvents chunks) [0 ..< length chunks]) @
               [GenerateContent
                  (finalPrompt (map (batchEntry gen chunks (calls w)) [0 ..< length chunks]))]\<rparr>)"
proof -
  have loop: "chunkLoop gen chunks 0 [] w =
     (map (batchEntry gen chunks (calls w)) [0 ..< length chunks],
      w\<lparr>calls := calls w + length chunks,
        trace := trace w @ concat (map (chunkEvents chunks) [0 ..< length chunks])\<rparr>)"
    using chunkLoop_closed[of 0 chunks w "calls w" gen "[]"] by simp
  show ?thesis
    using assms
    by (simp add: analyzeAndRecommend_def loop generateContent_def split: sum.split)
qed

lemma analyzeAndRecommend_unconfigured:
  "apiKey = None \<or> apiKey = Some [] \<Longrightarrow>
   analyzeAndRecommend apiKey gen reviews sz w =
     Some (Inl (Error (jsstr ''GEMINI_API_KEY not configured in environment variables'')), w)"
  by (auto simp: analyzeAndRecommend_def)

lemma analyzeAndRecommend_diverges:
  assumes "apiKey = Some key" and "key \<noteq> []" and "chunkArray reviews sz = None"
  shows "analyzeAndRecommend apiKey gen reviews sz w = None"
  using assms by (simp add: analyzeAndRecommend_def)

lemma filter_chunkEvents:
  "filter (\<lambda>e. e \<noteq> Sleep 1000) (concat (map (chunkEvents chunks) js)) =
     map (\<lambda>j. GenerateContent (chunkPrompt (chunks ! j))) js"
  by (induction js) (simp_all add: chunkEvents_def)

text \<open>
  Claim C6. Whatever the outcomes of the chunk calls, the loop leaves exactly one entry per
  chunk in \<open>batchResults\<close>, in chunk order: where the call of chunk \<open>i\<close> throws, the entry is
  "Error processing batch" with the number \<open>i + 1\<close> and the error message; where it returns,
  the entry is its text. Every chunk gets its call, one after the other: the loop makes as
  many calls as there are chunks, and apart from the pauses its events are the calls with
  the chunks' prompts, in order.
\<close>

theorem chunk_failure_is_placeholder:
  assumes "chunkLoop gen chunks 0 [] w = (batchResults, w')"
  shows "length batchResults = length chunks \<and>
     (\<forall>i<length chunks.
        (\<forall>error. gen (calls w + i) (chunkPrompt (chunks ! i)) = Inl error \<longrightarrow>
           batchResults ! i =
             jsstr ''Error processing batch '' @ showNat (i + 1) @ jsstr '': '' @ message error) \<and>
        (\<forall>text. gen (calls w + i) (chunkPrompt (chunks ! i)) = Inr text \<longrightarrow>
           batchResults ! i = text)) \<and>
     calls w' = calls w + length chunks \<and>
     filter (\<lambda>e. e \<noteq> Sleep 1000) (drop (length (trace w)) (trace w')) =
       map (\<lambda>c. GenerateContent (chunkPrompt c)) chunks"
proof -
  have loop: "chunkLoop gen chunks 0 [] w =
     (map (batchEntry gen chunks (calls w)) [0 ..< length chunks],
      w\<lparr>calls := calls w + length chunks,
        trace := trace w @ concat (map (chunkEvents chunks) [0 ..< length chunks])\<rparr>)"
    using chunkLoop_closed[of 0 chunks w "calls w" gen "[]"] by simp
  from assms loop have
    br: "batchResults = map (batchEntry gen chunks (calls w)) [0 ..< length chunks]" and
    w': "w' = w\<lparr>calls := calls w + length chunks,
        trace := trace w @ concat (map (chunkEvents chunks) [0 ..< length chunks])\<rparr>"
    by simp_all
  have 1: "length batchResults = length chunks" unfolding br by simp
  have 2: "\<forall>i<length chunks.
        (\<forall>error. gen (calls w + i) (chunkPrompt (chunks ! i)) = Inl error \<longrightarrow>
           batchResults ! i =
             jsstr ''Error processing batch '' @ showNat (i + 1) @ jsstr '': '' @ message error) \<and>
        (\<forall>text. gen (calls w + i) (chunkPrompt (chunks ! i)) = Inr text \<longrightarrow>
           batchResults ! i = text)"
    unfolding br by (simp add: batchEntry_def batchError_def)
  have 3: "calls w' = calls w + length chunks" unfolding w' by simp
  have "filter (\<lambda>e. e \<noteq> Sleep 1000) (drop (length (trace w)) (trace w')) =
      map (\<lambda>j. GenerateContent (chunkPrompt (chunks ! j))) [0 ..< length chunks]"
    unfolding w' by (simp add: filter_chunkEvents)
  also have "\<dots> = map (\<lambda>c. GenerateContent (chunkPrompt c)) (map (\<lambda>j. chunks ! j) [0 ..< length chunks])"
    by (simp add: comp_def)
  also have "map (\<lambda>j. chunks ! j) [0 ..< length chunks] = chunks" by (rule map_nth)
  finally have 4: "filter (\<lambda>e. e \<noteq> Sleep 1000) (drop (length (trace w)) (trace w')) =
       map (\<lambda>c. GenerateContent (chunkPrompt c)) chunks" .
  from 1 2 3 4 show ?thesis by blast
qed

text \<open>
  Claim C7. With the API key configured and a chunk size of at least 1 (or nothing to
  chunk), \<open>chunkArray\<close> returns and \<open>analyzeAndRecommend\<close> returns a string and does not
  throw: the text of the final call, or, when the final call throws, the entries of
  \<open>batchResults\<close> joined with the divider of two line feeds, three hyphens and two line
  feeds.
\<close>

theorem aggregation_failure_falls_back:
  assumes "apiKey = Some key" and "key \<noteq> []" and "1 \<le> sz \<or> reviews = []"
  shows "\<exists>chunks out w'.
     chunkArray reviews sz = Some chunks \<and>
     analyzeAndRecommend apiKey gen reviews sz w = Some (Inr out, w') \<and>
     (\<forall>error.
        gen (calls w + length chunks) (finalPrompt (fst (chunkLoop gen chunks 0 [] w))) = Inl error
        \<longrightarrow> out = join (jsstr ''\<newline>\<newline>---\<newline>\<newline>'')
                    (fst (chunkLoop gen chunks 0 [] w))) \<and>
     (\<forall>t.
        gen (calls w + length chunks) (finalPrompt (fst (chunkLoop gen chunks 0 [] w))) = Inr t
        \<longrightarrow> out = t)"
proof -
  from chunkArray_returns[OF assms(3)] obtain chunks where
    c: "chunkArray reviews sz = Some chunks" by blast
  have loop: "fst (chunkLoop gen chunks 0 [] w) =
     map (batchEntry gen chunks (calls w)) [0 ..< length chunks]"
    using chunkLoop_closed[of 0 chunks w "calls w" gen "[]"] by simp
  have "\<exists>out w'.
     analyzeAndRecommend apiKey gen reviews sz w = Some (Inr out, w') \<and>
     (\<forall>error.
        gen (calls w + length chunks) (finalPrompt (fst (chunkLoop gen chunks 0 [] w))) = Inl error
        \<longrightarrow> out = join (jsstr ''\<newline>\<newline>---\<newline>\<newline>'')
                    (fst (chunkLoop gen chunks 0 [] w))) \<and>
     (\<forall>t.
        gen (calls w + length chunks) (finalPrompt (fst (chunkLoop gen chunks 0 [] w))) = Inr t
        \<longrightarrow> out = t)"
    unfolding loop analyzeAndRecommend_closed[OF assms(1,2) c] divider_def by auto
  with c show ?thesis by blast
qed

text \<open>
  Claim C9. For \<open>negativeReviews = []\<close> the handler of \<^verbatim>\<open>/api/recommendations\<close> answers with
  \<open>success: true\<close>, the message and the canned recommendations, "All reviews are
  positive! Keep up the great work! " and the four code units that follow it in the
  source file, and leaves the world as it was: no call to the generative model is made and
  no pause is taken.
\<close>

theorem recommendations_empty_array:
  "recommendationsHandler apiKey gen
     \<lparr>negativeReviews = Some [], maxReviews = m, chunkSize = c\<rparr> w =
   Some (Response 200
           (CannedOk (jsstr ''No negative reviews to analyze'')
              (jsstr ''All reviews are positive! Keep up the great work! ''
                 @ [0xF0, 0x178, 0x17D, 0x2030])),
         w)"
  by (simp add: recommendationsHandler_def cannedRecommendations_def)

text \<open>
  Claim C10. For \<open>sz \<ge> 1\<close> \<open>chunkArray\<close> returns \<open>\<lceil>n / sz\<rceil>\<close> chunks, chunk \<open>j\<close> being the
  \<open>sz\<close> elements from index \<open>j * sz\<close> (fewer at the end), whose concatenation is the array.
  For \<open>sz \<le> 0\<close> and a non-empty array the loop never ends. The handler passes the
  client's \<open>chunkSize\<close> on unchecked: with the API key configured, a non-empty list to
  analyze and \<open>chunkSize \<le> 0\<close> it never responds.
\<close>

theorem chunkArray_total_iff:
  "(1 \<le> sz \<longrightarrow>
      (\<exists>chunks. chunkArray array sz = Some chunks \<and>
         length chunks = (length array + nat sz - 1) div nat sz \<and>
         concat chunks = array \<and>
         (\<forall>j<length chunks. chunks ! j = take (nat sz) (drop (j * nat sz) array)))) \<and>
   (sz \<le> 0 \<and> array \<noteq> [] \<longrightarrow> chunkArray array sz = None) \<and>
   (sz \<le> 0 \<and> slice negReviews 0 maxR \<noteq> [] \<and> apiKey = Some key \<and> key \<noteq> [] \<longrightarrow>
      recommendationsHandler apiKey gen
        \<lparr>negativeReviews = Some negReviews, maxReviews = Some maxR, chunkSize = Some sz\<rparr> w = None)"
proof -
  have total: "\<exists>chunks. chunkArray array sz = Some chunks \<and>
         length chunks = (length array + nat sz - 1) div nat sz \<and>
         concat chunks = array \<and>
         (\<forall>j<length chunks. chunks ! j = take (nat sz) (drop (j * nat sz) array))"
    if sz: "1 \<le> sz"
  proof -
    let ?k = "nat sz"
    let ?c = "(length array + ?k - 1) div ?k"
    let ?chunks = "map (\<lambda>m. take ?k (drop (m * ?k) array)) [0 ..< ?c]"
    from sz have k: "0 < ?k" by simp
    have "\<not> ?c * ?k < length array" using ceil_div_less[OF k, of ?c "length array"] by simp
    then have cover: "length array \<le> ?c * ?k" by simp
    have "concat ?chunks = drop (0 * ?k) array"
      by (rule concat_chunks_from[OF k _ cover]) simp
    then have "concat ?chunks = array" by simp
    moreover have "length ?chunks = ?c" by simp
    moreover have "\<forall>j<length ?chunks. ?chunks ! j = take ?k (drop (j * ?k) array)" by simp
    ultimately show ?thesis using chunkArray_closed[OF sz, of array] by blast
  qed
  have handler: "recommendationsHandler apiKey gen
        \<lparr>negativeReviews = Some negReviews, maxReviews = Some maxR, chunkSize = Some sz\<rparr> w = None"
    if "sz \<le> 0" and "slice negReviews 0 maxR \<noteq> []" and "apiKey = Some key" and "key \<noteq> []"
  proof -
    from that(2) have ne: "negReviews \<noteq> []" by (auto simp: slice_def)
    have "analyzeAndRecommend apiKey gen (slice negReviews 0 maxR) sz w = None"
      using analyzeAndRecommend_diverges[OF that(3,4) chunkArray_diverges[OF that(1,2)]] .
    with ne show ?thesis by (simp add: recommendationsHandler_def)
  qed
  show ?thesis
  proof (intro conjI impI)
    assume "1 \<le> sz"
    then show "\<exists>chunks. chunkArray array sz = Some chunks \<and>
         length chunks = (length array + nat sz - 1) div nat sz \<and>
         concat chunks = array \<and>
         (\<forall>j<length chunks. chunks ! j = take (nat sz) (drop (j * nat sz) array))"
      by (rule total)
  next
    assume "sz \<le> 0 \<and> array \<noteq> []"
    then show "chunkArray array sz = None" by (simp add: chunkArray_diverges)
  next
    assume a: "sz \<le> 0 \<and> slice negReviews 0 maxR \<noteq> [] \<and> apiKey = Some key \<and> key \<noteq> []"
    show "recommendationsHandler apiKey gen
        \<lparr>negativeReviews = Some negReviews, maxReviews = Some maxR, chunkSize = Some sz\<rparr> w = None"
      by (rule handler) (simp_all add: a)
  qed
qed

lemma analyzeAndRecommend_trace:
  assumes "apiKey = Some key" and "key \<noteq> []" and "chunkArray reviews sz = Some chunks"
    and "events = concat (map (chunkEvents chunks) [0 ..< length chunks])"
    and "batchResults = map (batchEntry gen chunks (calls w)) [0 ..< length chunks]"
  shows "\<exists>text w'.
     analyzeAndRecommend apiKey gen reviews sz w = Some (Inr text, w') \<and>
     trace w' = trace w @ events @ [GenerateContent (finalPrompt batchResults)] \<and>
     calls w' = calls w + length chunks + 1"
  unfolding analyzeAndRecommend_closed[OF assms(1,2,3)] assms(4,5) by simp

lemma upt_3: "[0 ..< 3] = [0, 1, 2]"
  by (simp add: upt_rec)

lemma chunkArray_120_50:
  assumes "length reviews = 120"
  shows "chunkArray reviews 50 =
     Some [take 50 reviews, take 50 (drop 50 reviews), drop 100 reviews]"
proof -
  have c: "(length reviews + nat 50 - 1) div nat 50 = 3" using assms by simp
  have "chunkArray reviews 50 =
      Some (map (\<lambda>m. take (nat 50) (drop (m * nat 50) reviews)) [0 ..< 3])"
    using chunkArray_closed[of 50 reviews] unfolding c by simp
  then show ?thesis using assms by (simp add: upt_3)
qed

lemma chunkLoop_from_start:
  "chunkLoop gen chunks 0 [] w =
     (map (batchEntry gen chunks (calls w)) [0 ..< length chunks],
      w\<lparr>calls := calls w + length chunks,
        trace := trace w @ concat (map (chunkEvents chunks) [0 ..< length chunks])\<rparr>)"
  using chunkLoop_closed[of 0 chunks w "calls w" gen "[]"] by simp

lemma upt_2: "[0 ..< 2] = [0, 1]"
  by (simp add: upt_rec)

lemma showNat_2: "showNat 2 = jsstr ''2''" "showNat (Suc (Suc 0)) = jsstr ''2''"
  by (simp_all add: showNat.simps jsstr_def)

lemma join_nth:
  "i < length xs \<Longrightarrow> \<exists>pre post. join sep xs = pre @ xs ! i @ post"
proof (induction sep xs arbitrary: i rule: join.induct)
  case (1 sep)
  then show ?case by simp
next
  case (2 sep x)
  then have "join sep [x] = [] @ [x] ! i @ []" by simp
  then show ?case by blast
next
  case (3 sep x y ys)
  show ?case
  proof (cases i)
    case 0
    then have "join sep (x # y # ys) = [] @ (x # y # ys) ! i @ (sep @ join sep (y # ys))"
      by simp
    then show ?thesis by blast
  next
    case (Suc j)
    with 3(2) have "j < length (y # ys)" by simp
    from 3(1)[OF this] obtain pre post where
      "join sep (y # ys) = pre @ (y # ys) ! j @ post" by blast
    then have "join sep (x # y # ys) = (x @ sep @ pre) @ (x # y # ys) ! i @ post"
      using Suc by simp
    then show ?thesis by blast
  qed
qed

lemma chunkPrompt_carries:
  assumes "i < length chunk"
  shows "\<exists>pre post. chunkPrompt chunk = pre @ showNat (i + 1) @ jsstr ''. '' @ chunk ! i @ post"
proof -
  let ?lines = "map (\<lambda>(idx, review). showNat (idx + 1) @ jsstr ''. '' @ review) (enumerate 0 chunk)"
  have i: "i < length ?lines" using assms by simp
  have n: "?lines ! i = showNat (i + 1) @ jsstr ''. '' @ chunk ! i"
    using assms by (simp add: nth_enumerate_eq)
  from join_nth[OF i, of "jsstr ''\<newline>''"] obtain pre post where
    j: "join (jsstr ''\<newline>'') ?lines = pre @ ?lines ! i @ post" by blast
  have "chunkPrompt chunk =
      (jsstr ''\<newline>You are an educational consultant analyzing student feedback. Below are ''
       @ showNat (length chunk) @ jsstr '' negative reviews from students:\<newline>\<newline>'' @ pre)
      @ showNat (i + 1) @ jsstr ''. '' @ chunk ! i @
      (post @ jsstr ''\<newline>\<newline>Please provide:\<newline>''
     @ jsstr ''1. **Key Issues Identified**: Summarize the main problems mentioned\<newline>''
     @ jsstr ''2. **Common Themes**: What patterns do you see across these reviews?\<newline>''
     @ jsstr ''3. **Priority Areas**: What should be addressed first?\<newline>''
     @ jsstr ''4. **Specific Recommendations**: Actionable steps to improve\<newline>''
     @ jsstr ''\<newline>Keep your analysis concise and actionable.\<newline>'')"
    unfolding chunkPrompt_def j n by (simp only: append_assoc)
  then show ?thesis by blast
qed

lemma finalPrompt_carries:
  assumes "i < length results"
  shows "\<exists>pre post. finalPrompt results =
     pre @ jsstr ''\<newline>### Batch '' @ showNat (i + 1) @ jsstr '' Analysis:\<newline>'' @ results ! i @ post"
proof -
  let ?lines = "map (\<lambda>(idx, result).
                 jsstr ''\<newline>### Batch '' @ showNat (idx + 1) @ jsstr '' Analysis:\<newline>'' @ result)
              (enumerate 0 results)"
  have i: "i < length ?lines" using assms by simp
  have n: "?lines ! i =
      jsstr ''\<newline>### Batch '' @ showNat (i + 1) @ jsstr '' Analysis:\<newline>'' @ results ! i"
    using assms by (simp add: nth_enumerate_eq)
  from join_nth[OF i, of "jsstr ''\<newline>''"] obtain pre post where
    j: "join (jsstr ''\<newline>'') ?lines = pre @ ?lines ! i @ post" by blast
  have "finalPrompt results =
      (jsstr ''\<newline>Based on the following analyses of student feedback batches, ''
     @ jsstr ''provide a comprehensive summary with actionable recommendations:\<newline>\<newline>'' @ pre)
      @ jsstr ''\<newline>### Batch '' @ showNat (i + 1) @ jsstr '' Analysis:\<newline>'' @ results ! i @
      (post @ jsstr ''\<newline>\<newline>Please provide:\<newline>''
     @ jsstr ''1. **Overall Summary**: What are the most critical issues?\<newline>''
     @ jsstr ''2. **Top 5 Recommendations**: Prioritized, actionable steps\<newline>''
     @ jsstr ''3. **Quick Wins**: Easy improvements that can be implemented immediately\<newline>''
     @ jsstr ''4. **Long-term Strategy**: Structural changes for sustained improvement\<newline>''
     @ jsstr ''\<newline>Format your response in clear markdown.\<newline>'')"
    unfolding finalPrompt_def j n by (simp only: append_assoc)
  then show ?thesis by blast
qed

text \<open>
  Claim C5. For 120 reviews and chunk size 50, with the API key configured, \<open>chunkArray\<close>
  returns three chunks, the first 50, the next 50 and the last 20 reviews, and the events
  of \<open>analyzeAndRecommend\<close> are, in this order: the call for the first chunk, a pause, the
  call for the second, a pause, the call for the third, and the final aggregation call
  over the three batch results of the loop; nothing follows the final call. The prompt of
  a chunk call carries every review of its chunk behind its number in the chunk: the
  first call the reviews 0 to 49 of the input, the second the reviews 50 to 99, the third
  the reviews 100 to 119. The final prompt carries every batch result under its batch
  number.
\<close>

theorem recommend_120_by_50:
  assumes "length reviews = 120" and "apiKey = Some key" and "key \<noteq> []"
  shows "\<exists>text batchResults w'.
     chunkArray reviews 50 =
       Some [take 50 reviews, take 50 (drop 50 reviews), drop 100 reviews] \<and>
     analyzeAndRecommend apiKey gen reviews 50 w = Some (Inr text, w') \<and>
     batchResults =
       fst (chunkLoop gen [take 50 reviews, take 50 (drop 50 reviews), drop 100 reviews] 0 [] w) \<and>
     length batchResults = 3 \<and>
     trace w' = trace w @
       [GenerateContent (chunkPrompt (take 50 reviews)), Sleep 1000,
        GenerateContent (chunkPrompt (take 50 (drop 50 reviews))), Sleep 1000,
        GenerateContent (chunkPrompt (drop 100 reviews)),
        GenerateContent (finalPrompt batchResults)] \<and>
     calls w' = calls w + 4 \<and>
     length (take 50 reviews) = 50 \<and> length (take 50 (drop 50 reviews)) = 50 \<and>
     length (drop 100 reviews) = 20 \<and>
     take 50 reviews @ take 50 (drop 50 reviews) @ drop 100 reviews = reviews \<and>
     (\<forall>i<50. \<exists>pre post. chunkPrompt (take 50 reviews) =
        pre @ showNat (i + 1) @ jsstr ''. '' @ reviews ! i @ post) \<and>
     (\<forall>i<50. \<exists>pre post. chunkPrompt (take 50 (drop 50 reviews)) =
        pre @ showNat (i + 1) @ jsstr ''. '' @ reviews ! (50 + i) @ post) \<and>
     (\<forall>i<20. \<exists>pre post. chunkPrompt (drop 100 reviews) =
        pre @ showNat (i + 1) @ jsstr ''. '' @ reviews ! (100 + i) @ post) \<and>
     (\<forall>i<3. \<exists>pre post. finalPrompt batchResults =
        pre @ jsstr ''\<newline>### Batch '' @ showNat (i + 1) @ jsstr '' Analysis:\<newline>''
          @ batchResults ! i @ post)"
proof -
  let ?chunks = "[take 50 reviews, take 50 (drop 50 reviews), drop 100 reviews]"
  let ?br = "map (batchEntry gen ?chunks (calls w)) [0 ..< length ?chunks]"
  have ev: "concat (map (chunkEvents ?chunks) [0 ..< length ?chunks]) =
      [GenerateContent (chunkPrompt (take 50 reviews)), Sleep 1000,
       GenerateContent (chunkPrompt (take 50 (drop 50 reviews))), Sleep 1000,
       GenerateContent (chunkPrompt (drop 100 reviews))]"
    by (simp add: upt_3 chunkEvents_def)
  have parts: "take 50 reviews @ take 50 (drop 50 reviews) @ drop 100 reviews = reviews"
  proof -
    have "take 50 (drop 50 reviews) @ drop 50 (drop 50 reviews) = drop 50 reviews"
      by (rule append_take_drop_id)
    then have "take 50 (drop 50 reviews) @ drop 100 reviews = drop 50 reviews" by simp
    then show ?thesis by simp
  qed
  have lens: "length (take 50 reviews) = 50" "length (take 50 (drop 50 reviews)) = 50"
    "length (drop 100 reviews) = 20" using assms(1) by simp_all
  have ca: "chunkArray reviews 50 = Some ?chunks" by (rule chunkArray_120_50[OF assms(1)])
  have br: "?br = fst (chunkLoop gen ?chunks 0 [] w)"
    by (simp only: chunkLoop_from_start fst_conv)
  from analyzeAndRecommend_trace[OF assms(2,3) ca ev[symmetric] refl]
  obtain out w' where
    run: "analyzeAndRecommend apiKey gen reviews 50 w = Some (Inr out, w')" and
    tr: "trace w' = trace w @
       [GenerateContent (chunkPrompt (take 50 reviews)), Sleep 1000,
        GenerateContent (chunkPrompt (take 50 (drop 50 reviews))), Sleep 1000,
        GenerateContent (chunkPrompt (drop 100 reviews))] @
       [GenerateContent (finalPrompt ?br)]" and
    c: "calls w' = calls w + length ?chunks + 1"
    by blast
  have l: "length ?br = 3" by simp
  from tr have tr': "trace w' = trace w @
       [GenerateContent (chunkPrompt (take 50 reviews)), Sleep 1000,
        GenerateContent (chunkPrompt (take 50 (drop 50 reviews))), Sleep 1000,
        GenerateContent (chunkPrompt (drop 100 reviews)),
        GenerateContent (finalPrompt ?br)]" by simp
  from c have c': "calls w' = calls w + 4" by simp
  have p1: "\<forall>i<50. \<exists>pre post. chunkPrompt (take 50 reviews) =
        pre @ showNat (i + 1) @ jsstr ''. '' @ reviews ! i @ post"
  proof (intro allI impI)
    fix i :: nat assume i: "i < 50"
    then have "i < length (take 50 reviews)" using lens(1) by simp
    from chunkPrompt_carries[OF this] i
    show "\<exists>pre post. chunkPrompt (take 50 reviews) =
        pre @ showNat (i + 1) @ jsstr ''. '' @ reviews ! i @ post" by simp
  qed
  have p2: "\<forall>i<50. \<exists>pre post. chunkPrompt (take 50 (drop 50 reviews)) =
        pre @ showNat (i + 1) @ jsstr ''. '' @ reviews ! (50 + i) @ post"
  proof (intro allI impI)
    fix i :: nat assume i: "i < 50"
    then have "i < length (take 50 (drop 50 reviews))" using lens(2) by simp
    from chunkPrompt_carries[OF this] i assms(1)
    show "\<exists>pre post. chunkPrompt (take 50 (drop 50 reviews)) =
        pre @ showNat (i + 1) @ jsstr ''. '' @ reviews ! (50 + i) @ post" by simp
  qed
  have p3: "\<forall>i<20. \<exists>pre post. chunkPrompt (drop 100 reviews) =
        pre @ showNat (i + 1) @ jsstr ''. '' @ reviews ! (100 + i) @ post"
  proof (intro allI impI)
    fix i :: nat assume i: "i < 20"
    then have "i < length (drop 100 reviews)" using lens(3) by simp
    from chunkPrompt_carries[OF this] i assms(1)
    show "\<exists>pre post. chunkPrompt (drop 100 reviews) =
        pre @ showNat (i + 1) @ jsstr ''. '' @ reviews ! (100 + i) @ post" by simp
  qed
  have p4: "\<forall>i<3. \<exists>pre post. finalPrompt ?br =
        pre @ jsstr ''\<newline>### Batch '' @ showNat (i + 1) @ jsstr '' Analysis:\<newline>''
          @ ?br ! i @ post"
  proof (intro allI impI)
    fix i :: nat assume "i < 3"
    then have "i < length ?br" by simp
    from finalPrompt_carries[OF this]
    show "\<exists>pre post. finalPrompt ?br =
        pre @ jsstr ''\<newline>### Batch '' @ showNat (i + 1) @ jsstr '' Analysis:\<newline>''
          @ ?br ! i @ post" .
  qed
  show ?thesis
    apply (rule exI[of _ out], rule exI[of _ ?br], rule exI[of _ w'])
    apply (intro conjI)
    apply (rule ca) apply (rule run) apply (rule br) apply (rule l) apply (rule tr')
    apply (rule c') apply (rule lens(1)) apply (rule lens(2)) apply (rule lens(3))
    apply (rule parts) apply (rule p1) apply (rule p2) apply (rule p3) apply (rule p4)
    done
qed

lemma jsstr_key: "jsstr ''key'' \<noteq> []"
  by (simp add: jsstr_def)

lemma carried:
  assumes "\<forall>i<n. \<exists>pre post. X = pre @ f i @ g @ h i @ post"
    and "i < n" and "f i @ g @ h i = lit"
  shows "\<exists>pre post. X = pre @ lit @ post"
proof -
  from assms(1,2) obtain pre post where "X = pre @ f i @ g @ h i @ post" by blast
  then have "X = pre @ (f i @ g @ h i) @ post" by simp
  then show ?thesis unfolding assms(3) by blast
qed

text \<open>
  The theorem at the 120 distinct reviews "0" to "119" and a model that answers "first",
  "second", "third" and "summary". The first prompt carries "1. 0" and "50. 49", the second
  "1. 50" and "50. 99", the third "1. 100" and "20. 119"; the final prompt carries the
  third batch result under "Batch 3", and its answer is returned. The last equation is the
  whole prompt of a chunk of two reviews.
\<close>

theorem recommend_120_by_50_witness:
  "length (map showNat [0 ..< 120]) = 120 \<and> jsstr ''key'' \<noteq> [] \<and>
   chunkArray (map showNat [0 ..< 120]) 50 =
     Some [take 50 (map showNat [0 ..< 120]), take 50 (drop 50 (map showNat [0 ..< 120])),
           drop 100 (map showNat [0 ..< 120])] \<and>
   analyzeAndRecommend (Some (jsstr ''key''))
     (scriptGen [Inr (jsstr ''first''), Inr (jsstr ''second''), Inr (jsstr ''third''),
                 Inr (jsstr ''summary'')])
     (map showNat [0 ..< 120]) 50 \<lparr>calls = 0, trace = []\<rparr> =
     Some (Inr (jsstr ''summary''),
           \<lparr>calls = 4,
            trace =
              [GenerateContent (chunkPrompt (take 50 (map showNat [0 ..< 120]))), Sleep 1000,
               GenerateContent (chunkPrompt (take 50 (drop 50 (map showNat [0 ..< 120])))),
               Sleep 1000,
               GenerateContent (chunkPrompt (drop 100 (map showNat [0 ..< 120]))),
               GenerateContent
                 (finalPrompt [jsstr ''first'', jsstr ''second'', jsstr ''third''])]\<rparr>) \<and>
   (\<exists>pre post. chunkPrompt (take 50 (map showNat [0 ..< 120])) =
      pre @ jsstr ''1. 0'' @ post) \<and>
   (\<exists>pre post. chunkPrompt (take 50 (map showNat [0 ..< 120])) =
      pre @ jsstr ''50. 49'' @ post) \<and>
   (\<exists>pre post. chunkPrompt (take 50 (drop 50 (map showNat [0 ..< 120]))) =
      pre @ jsstr ''1. 50'' @ post) \<and>
   (\<exists>pre post. chunkPrompt (take 50 (drop 50 (map showNat [0 ..< 120]))) =
      pre @ jsstr ''50. 99'' @ post) \<and>
   (\<exists>pre post. chunkPrompt (drop 100 (map showNat [0 ..< 120])) =
      pre @ jsstr ''1. 100'' @ post) \<and>
   (\<exists>pre post. chunkPrompt (drop 100 (map showNat [0 ..< 120])) =
      pre @ jsstr ''20. 119'' @ post) \<and>
   (\<exists>pre post. finalPrompt [jsstr ''first'', jsstr ''second'', jsstr ''third''] =
      pre @ jsstr ''\<newline>### Batch 3 Analysis:\<newline>third'' @ post) \<and>
   chunkPrompt [jsstr ''late'', jsstr ''rude''] =
     jsstr ''\<newline>You are an educational consultant analyzing student feedback. Below are 2''
     @ jsstr '' negative reviews from students:\<newline>\<newline>''
     @ jsstr ''1. late\<newline>2. rude''
     @ jsstr ''\<newline>\<newline>Please provide:\<newline>''
     @ jsstr ''1. **Key Issues Identified**: Summarize the main problems mentioned\<newline>''
     @ jsstr ''2. **Common Themes**: What patterns do you see across these reviews?\<newline>''
     @ jsstr ''3. **Priority Areas**: What should be addressed first?\<newline>''
     @ jsstr ''4. **Specific Recommendations**: Actionable steps to improve\<newline>''
     @ jsstr ''\<newline>Keep your analysis concise and actionable.\<newline>''"
proof -
  let ?R = "map showNat [0 ..< 120]"
  let ?G = "scriptGen [Inr (jsstr ''first''), Inr (jsstr ''second''), Inr (jsstr ''third''),
                 Inr (jsstr ''summary'')]"
  let ?W = "\<lparr>calls = 0, trace = []\<rparr>"
  let ?C = "[take 50 ?R, take 50 (drop 50 ?R), drop 100 ?R]"
  have h: "length ?R = 120" by simp
  have nth: "?R ! i = showNat i" if "i < 120" for i
    using that by (simp only: nth_map length_upt nth_upt minus_nat.diff_0 add_0)
  from recommend_120_by_50[OF h refl jsstr_key, of ?G ?W]
  obtain out batchResults w' where
    ca: "chunkArray ?R 50 = Some ?C" and
    run: "analyzeAndRecommend (Some (jsstr ''key'')) ?G ?R 50 ?W = Some (Inr out, w')" and
    br: "batchResults = fst (chunkLoop ?G ?C 0 [] ?W)" and
    tr: "trace w' = trace ?W @
       [GenerateContent (chunkPrompt (take 50 ?R)), Sleep 1000,
        GenerateContent (chunkPrompt (take 50 (drop 50 ?R))), Sleep 1000,
        GenerateContent (chunkPrompt (drop 100 ?R)),
        GenerateContent (finalPrompt batchResults)]" and
    c: "calls w' = calls ?W + 4" and
    p1: "\<forall>i<50. \<exists>pre post. chunkPrompt (take 50 ?R) =
        pre @ showNat (i + 1) @ jsstr ''. '' @ ?R ! i @ post" and
    p2: "\<forall>i<50. \<exists>pre post. chunkPrompt (take 50 (drop 50 ?R)) =
        pre @ showNat (i + 1) @ jsstr ''. '' @ ?R ! (50 + i) @ post" and
    p3: "\<forall>i<20. \<exists>pre post. chunkPrompt (drop 100 ?R) =
        pre @ showNat (i + 1) @ jsstr ''. '' @ ?R ! (100 + i) @ post" and
    p4: "\<forall>i<3. \<exists>pre post. finalPrompt batchResults =
        pre @ jsstr ''\<newline>### Batch '' @ showNat (i + 1) @ jsstr '' Analysis:\<newline>''
          @ batchResults ! i @ post"
    by blast
  have brv: "batchResults = [jsstr ''first'', jsstr ''second'', jsstr ''third'']"
    unfolding br chunkLoop_from_start
    by (simp add: upt_3 batchEntry_def scriptGen_def del: upt_rec_numeral)
  have full: "analyzeAndRecommend (Some (jsstr ''key'')) ?G ?R 50 ?W =
     Some (Inr (jsstr ''summary''),
           \<lparr>calls = 4,
            trace =
              [GenerateContent (chunkPrompt (take 50 ?R)), Sleep 1000,
               GenerateContent (chunkPrompt (take 50 (drop 50 ?R))), Sleep 1000,
               GenerateContent (chunkPrompt (drop 100 ?R)),
               GenerateContent
                 (finalPrompt [jsstr ''first'', jsstr ''second'', jsstr ''third''])]\<rparr>)"
  proof -
    have "analyzeAndRecommend (Some (jsstr ''key'')) ?G ?R 50 ?W =
        Some (Inr out, \<lparr>calls = calls w', trace = trace w'\<rparr>)"
      using run by simp
    moreover have "out = jsstr ''summary''"
      using run unfolding analyzeAndRecommend_closed[OF refl jsstr_key ca]
      by (simp add: scriptGen_def del: upt_rec_numeral)
    ultimately show ?thesis unfolding tr c brv by simp
  qed
  have e1: "\<exists>pre post. chunkPrompt (take 50 ?R) = pre @ jsstr ''1. 0'' @ post"
    by (rule carried[OF p1, where i = 0])
       (simp_all add: showNat.simps jsstr_def del: upt_rec_numeral)
  have e2: "\<exists>pre post. chunkPrompt (take 50 ?R) = pre @ jsstr ''50. 49'' @ post"
    by (rule carried[OF p1, where i = 49])
       (simp_all add: showNat.simps jsstr_def del: upt_rec_numeral)
  have e3: "\<exists>pre post. chunkPrompt (take 50 (drop 50 ?R)) = pre @ jsstr ''1. 50'' @ post"
    by (rule carried[OF p2, where i = 0])
       (simp_all add: showNat.simps jsstr_def del: upt_rec_numeral)
  have e4: "\<exists>pre post. chunkPrompt (take 50 (drop 50 ?R)) = pre @ jsstr ''50. 99'' @ post"
    by (rule carried[OF p2, where i = 49])
       (simp_all add: showNat.simps jsstr_def del: upt_rec_numeral)
  have e5: "\<exists>pre post. chunkPrompt (drop 100 ?R) = pre @ jsstr ''1. 100'' @ post"
    by (rule carried[OF p3, where i = 0])
       (simp_all add: showNat.simps jsstr_def del: upt_rec_numeral)
  have e6: "\<exists>pre post. chunkPrompt (drop 100 ?R) = pre @ jsstr ''20. 119'' @ post"
    by (rule carried[OF p3, where i = 19])
       (simp_all add: showNat.simps jsstr_def del: upt_rec_numeral)
  have e7: "\<exists>pre post. finalPrompt [jsstr ''first'', jsstr ''second'', jsstr ''third''] =
      pre @ jsstr ''\<newline>### Batch 3 Analysis:\<newline>third'' @ post"
  proof -
    from p4[unfolded brv, rule_format, of 2] obtain pre post where
      "finalPrompt [jsstr ''first'', jsstr ''second'', jsstr ''third''] =
        pre @ jsstr ''\<newline>### Batch '' @ showNat (2 + 1) @ jsstr '' Analysis:\<newline>''
          @ [jsstr ''first'', jsstr ''second'', jsstr ''third''] ! 2 @ post"
      by auto
    moreover have "jsstr ''\<newline>### Batch '' @ showNat (2 + 1) @ jsstr '' Analysis:\<newline>''
          @ [jsstr ''first'', jsstr ''second'', jsstr ''third''] ! 2 =
        jsstr ''\<newline>### Batch 3 Analysis:\<newline>third''"
      by (simp add: showNat.simps jsstr_def)
    ultimately have "finalPrompt [jsstr ''first'', jsstr ''second'', jsstr ''third''] =
        pre @ jsstr ''\<newline>### Batch 3 Analysis:\<newline>third'' @ post"
      by simp
    then show ?thesis by blast
  qed
  have lit: "chunkPrompt [jsstr ''late'', jsstr ''rude''] =
     jsstr ''\<newline>You are an educational consultant analyzing student feedback. Below are 2''
     @ jsstr '' negative reviews from students:\<newline>\<newline>''
     @ jsstr ''1. late\<newline>2. rude''
     @ jsstr ''\<newline>\<newline>Please provide:\<newline>''
     @ jsstr ''1. **Key Issues Identified**: Summarize the main problems mentioned\<newline>''
     @ jsstr ''2. **Common Themes**: What patterns do you see across these reviews?\<newline>''
     @ jsstr ''3. **Priority Areas**: What should be addressed first?\<newline>''
     @ jsstr ''4. **Specific Recommendations**: Actionable steps to improve\<newline>''
     @ jsstr ''\<newline>Keep your analysis concise and actionable.\<newline>''"
    by (simp add: chunkPrompt_def enumerate_eq_zip upt_2 showNat.simps jsstr_def)
  from h jsstr_key ca full e1 e2 e3 e4 e5 e6 e7 lit show ?thesis
    by (intro conjI)
qed

text \<open>
  Three chunks, the call of the second one throws: the second entry is the placeholder,
  the other two are the model's text.
\<close>

theorem chunk_failure_is_placeholder_witness:
  "fst (chunkLoop (failAt 1 (Error (jsstr ''quota'')) (jsstr ''ok''))
          [[jsstr ''a''], [jsstr ''b''], [jsstr ''c'']] 0 [] \<lparr>calls = 0, trace = []\<rparr>) =
     [jsstr ''ok'', jsstr ''Error processing batch '' @ jsstr ''2'' @ jsstr '': quota'', jsstr ''ok''] \<and>
   failAt 1 (Error (jsstr ''quota'')) (jsstr ''ok'') 1 (chunkPrompt [jsstr ''b'']) =
     Inl (Error (jsstr ''quota'')) \<and>
   fst (chunkLoop (failAt 1 (Error (jsstr ''quota'')) (jsstr ''ok''))
          [[jsstr ''a''], [jsstr ''b''], [jsstr ''c'']] 0 [] \<lparr>calls = 0, trace = []\<rparr>) ! 1 =
     jsstr ''Error processing batch '' @ showNat 2 @ jsstr '': '' @ jsstr ''quota'' \<and>
   length (fst (chunkLoop (failAt 1 (Error (jsstr ''quota'')) (jsstr ''ok''))
          [[jsstr ''a''], [jsstr ''b''], [jsstr ''c'']] 0 [] \<lparr>calls = 0, trace = []\<rparr>)) = 3"
proof -
  let ?G = "failAt 1 (Error (jsstr ''quota'')) (jsstr ''ok'')"
  let ?C = "[[jsstr ''a''], [jsstr ''b''], [jsstr ''c'']]"
  let ?W = "\<lparr>calls = 0, trace = []\<rparr>"
  have fail: "?G 1 (chunkPrompt [jsstr ''b'']) = Inl (Error (jsstr ''quota''))"
    by (simp add: failAt_def)
  have all: "fst (chunkLoop ?G ?C 0 [] ?W) =
     [jsstr ''ok'', jsstr ''Error processing batch '' @ jsstr ''2'' @ jsstr '': quota'', jsstr ''ok'']"
    unfolding chunkLoop_from_start
    by (simp add: upt_3 batchEntry_def failAt_def batchError_def showNat_2 jsstr_def)
  have "chunkLoop ?G ?C 0 [] ?W = (fst (chunkLoop ?G ?C 0 [] ?W), snd (chunkLoop ?G ?C 0 [] ?W))"
    by simp
  from chunk_failure_is_placeholder[OF this]
  have len: "length (fst (chunkLoop ?G ?C 0 [] ?W)) = length ?C" and
    each: "\<forall>i<length ?C.
        (\<forall>error. ?G (calls ?W + i) (chunkPrompt (?C ! i)) = Inl error \<longrightarrow>
           fst (chunkLoop ?G ?C 0 [] ?W) ! i =
             jsstr ''Error processing batch '' @ showNat (i + 1) @ jsstr '': '' @ message error)"
    by blast+
  from each[rule_format, of 1 "Error (jsstr ''quota'')"] fail
  have one: "fst (chunkLoop ?G ?C 0 [] ?W) ! 1 =
      jsstr ''Error processing batch '' @ showNat 2 @ jsstr '': '' @ jsstr ''quota''"
    by (simp add: showNat_2)
  from len have len3: "length (fst (chunkLoop ?G ?C 0 [] ?W)) = 3" by simp
  from all fail one len3 show ?thesis by blast
qed

lemma chunkArray_2_1: "chunkArray [a, b] 1 = Some [[a], [b]]"
  using chunkArray_closed[of 1 "[a, b]"] by simp

text \<open>
  Two chunks of one review, answered "be on time" and "be kind", and a final call that
  throws: the result is the two batch texts with the divider between them.
\<close>

theorem aggregation_failure_falls_back_witness:
  "jsstr ''key'' \<noteq> [] \<and> (1::int) \<le> 1 \<and>
   chunkArray [jsstr ''late'', jsstr ''rude''] 1 = Some [[jsstr ''late''], [jsstr ''rude'']] \<and>
   fst (chunkLoop
          (scriptGen [Inr (jsstr ''be on time''), Inr (jsstr ''be kind''),
                      Inl (Error (jsstr ''down''))])
          [[jsstr ''late''], [jsstr ''rude'']] 0 [] \<lparr>calls = 0, trace = []\<rparr>) =
     [jsstr ''be on time'', jsstr ''be kind''] \<and>
   scriptGen [Inr (jsstr ''be on time''), Inr (jsstr ''be kind''), Inl (Error (jsstr ''down''))] 2
     (finalPrompt [jsstr ''be on time'', jsstr ''be kind'']) = Inl (Error (jsstr ''down'')) \<and>
   (\<exists>w'. analyzeAndRecommend (Some (jsstr ''key''))
            (scriptGen [Inr (jsstr ''be on time''), Inr (jsstr ''be kind''),
                        Inl (Error (jsstr ''down''))])
            [jsstr ''late'', jsstr ''rude''] 1 \<lparr>calls = 0, trace = []\<rparr> =
          Some (Inr (jsstr ''be on time\<newline>\<newline>---\<newline>\<newline>be kind''), w'))"
proof -
  let ?G = "scriptGen [Inr (jsstr ''be on time''), Inr (jsstr ''be kind''),
                      Inl (Error (jsstr ''down''))]"
  let ?C = "[[jsstr ''late''], [jsstr ''rude'']]"
  let ?W = "\<lparr>calls = 0, trace = []\<rparr>"
  have one: "(1::int) \<le> 1 \<or> [jsstr ''late'', jsstr ''rude''] = []" by simp
  have ca: "chunkArray [jsstr ''late'', jsstr ''rude''] 1 = Some ?C" by (rule chunkArray_2_1)
  have br: "fst (chunkLoop ?G ?C 0 [] ?W) = [jsstr ''be on time'', jsstr ''be kind'']"
    unfolding chunkLoop_from_start by (simp add: upt_2 batchEntry_def scriptGen_def)
  have fail: "?G 2 (finalPrompt [jsstr ''be on time'', jsstr ''be kind'']) =
      Inl (Error (jsstr ''down''))"
    by (simp add: scriptGen_def)
  from aggregation_failure_falls_back[OF refl jsstr_key one, where gen = ?G and w = ?W]
  obtain chunks out w' where
    c: "chunkArray [jsstr ''late'', jsstr ''rude''] 1 = Some chunks" and
    run: "analyzeAndRecommend (Some (jsstr ''key'')) ?G [jsstr ''late'', jsstr ''rude''] 1 ?W =
        Some (Inr out, w')" and
    fb: "\<forall>error. ?G (calls ?W + length chunks) (finalPrompt (fst (chunkLoop ?G chunks 0 [] ?W))) =
        Inl error \<longrightarrow>
        out = join (jsstr ''\<newline>\<newline>---\<newline>\<newline>'') (fst (chunkLoop ?G chunks 0 [] ?W))"
    by blast
  from c ca have chunks: "chunks = ?C" by simp
  have "?G (calls ?W + length ?C) (finalPrompt (fst (chunkLoop ?G ?C 0 [] ?W))) =
      Inl (Error (jsstr ''down''))" by (simp add: scriptGen_def)
  with fb have "out = join (jsstr ''\<newline>\<newline>---\<newline>\<newline>'') (fst (chunkLoop ?G ?C 0 [] ?W))"
    unfolding chunks by blast
  then have "out = jsstr ''be on time\<newline>\<newline>---\<newline>\<newline>be kind''"
    unfolding br by (simp add: jsstr_def)
  with run have "\<exists>w'. analyzeAndRecommend (Some (jsstr ''key'')) ?G
      [jsstr ''late'', jsstr ''rude''] 1 ?W =
      Some (Inr (jsstr ''be on time\<newline>\<newline>---\<newline>\<newline>be kind''), w')"
    by blast
  with jsstr_key ca br fail show ?thesis by simp
qed

text \<open>
  Three reviews in chunks of two; and a chunk size of 0, on which neither \<open>chunkArray\<close> nor
  the handler returns.
\<close>

theorem chunkArray_total_iff_witness:
  "(1::int) \<le> 2 \<and>
   (\<exists>chunks. chunkArray [jsstr ''a'', jsstr ''b'', jsstr ''c''] 2 = Some chunks \<and>
      length chunks = 2 \<and> concat chunks = [jsstr ''a'', jsstr ''b'', jsstr ''c''] \<and>
      chunks ! 0 = [jsstr ''a'', jsstr ''b''] \<and> chunks ! 1 = [jsstr ''c'']) \<and>
   (0::int) \<le> 0 \<and> [jsstr ''a''] \<noteq> [] \<and> chunkArray [jsstr ''a''] 0 = None \<and>
   slice [jsstr ''a''] 0 100 \<noteq> [] \<and> jsstr ''key'' \<noteq> [] \<and>
   recommendationsHandler (Some (jsstr ''key'')) (constGen (Inr (jsstr ''ok'')))
     \<lparr>negativeReviews = Some [jsstr ''a''], maxReviews = Some 100, chunkSize = Some 0\<rparr>
     \<lparr>calls = 0, trace = []\<rparr> = None"
proof -
  let ?A = "[jsstr ''a'', jsstr ''b'', jsstr ''c'']"
  from chunkArray_total_iff[of 2 ?A]
  obtain chunks where
    c: "chunkArray ?A 2 = Some chunks" and
    l: "length chunks = (length ?A + nat 2 - 1) div nat 2" and
    cc: "concat chunks = ?A" and
    n: "\<forall>j<length chunks. chunks ! j = take (nat 2) (drop (j * nat 2) ?A)"
    by auto
  from l have l2: "length chunks = 2" by simp
  from n l2 have n0: "chunks ! 0 = [jsstr ''a'', jsstr ''b'']" and n1: "chunks ! 1 = [jsstr ''c'']"
    by simp_all
  have s: "slice [jsstr ''a''] 0 100 \<noteq> []" by (simp add: slice_def)
  from chunkArray_total_iff[of 0 "[jsstr ''a'']" "[jsstr ''a'']" 100 "Some (jsstr ''key'')"
      "jsstr ''key''" "constGen (Inr (jsstr ''ok''))" "\<lparr>calls = 0, trace = []\<rparr>"] s jsstr_key
  have d: "chunkArray [jsstr ''a''] 0 = None" and
    h: "recommendationsHandler (Some (jsstr ''key'')) (constGen (Inr (jsstr ''ok'')))
     \<lparr>negativeReviews = Some [jsstr ''a''], maxReviews = Some 100, chunkSize = Some 0\<rparr>
     \<lparr>calls = 0, trace = []\<rparr> = None"
    by simp_all
  from c l2 cc n0 n1 d h s jsstr_key show ?thesis by auto
qed

end
